theory Spec2Isabelle
  imports Complex_Main
begin

section \<open>Numbers, errors and arrays\<close>

text \<open>
  The program computes on numpy arrays of floats. A finite float is modelled by the real
  number it denotes (rounding and overflow are not modelled). numpy does not raise on a
  float division by zero or on the logarithm of a non-positive number: it warns and
  stores \<open>nan\<close> or \<open>\<plusminus>inf\<close>. Such a non-finite entry is the value \<open>None\<close> of
  \<open>npfloat\<close>; arithmetic on a non-finite entry stays non-finite.
\<close>

type_synonym npfloat = "real option"

datatype error = IndexError | ValueError | AttributeError | KeyError | UnboundLocalError
  | TypeError | AssertionError | FloatToIntError

text \<open>\<open>a / b\<close> on finite floats: \<open>nan\<close> or \<open>\<plusminus>inf\<close> when \<open>b = 0\<close>.\<close>

definition np_divide :: "real \<Rightarrow> real \<Rightarrow> npfloat" where
  "np_divide a b = (if b = 0 then None else Some (a / b))"

text \<open>
  \<open>np.log\<close>: \<open>-inf\<close> at 0, \<open>nan\<close> below 0, and non-finite on a non-finite argument.
\<close>

definition np_log :: "npfloat \<Rightarrow> npfloat" where
  "np_log a = (case a of None \<Rightarrow> None | Some v \<Rightarrow> if v \<le> 0 then None else Some (ln v))"

text \<open>\<open>a / b\<close> where \<open>a\<close> may already be non-finite and \<open>b\<close> is finite.\<close>

definition np_divide_by :: "npfloat \<Rightarrow> real \<Rightarrow> npfloat" where
  "np_divide_by a b = (case a of None \<Rightarrow> None | Some v \<Rightarrow> np_divide v b)"

text \<open>\<open>a > b\<close> elementwise; every comparison with \<open>nan\<close> is false.\<close>

definition np_greater :: "npfloat \<Rightarrow> real \<Rightarrow> bool" where
  "np_greater a b = (case a of None \<Rightarrow> False | Some v \<Rightarrow> v > b)"

text \<open>
  A row of four box coordinates \<open>[x_min, y_min, x_max, y_max]\<close>; the prior boxes are
  the rows of \<open>self.prior_boxes[:, 0:4]\<close>.
\<close>

datatype box = Box (x_min: real) (y_min: real) (x_max: real) (y_max: real)

text \<open>
  A row of the ground-truth array: the four coordinates (columns \<open>0:4\<close>) and the
  class columns \<open>4:\<close>.
\<close>

datatype ground_truth = Ground_truth (gt_box: box) (gt_classes: "real list")

text \<open>The four entries of \<open>box_scale_factors\<close>.\<close>

datatype scale_factors = Scale_factors (scale_center_x: real) (scale_center_y: real)
  (scale_width: real) (scale_height: real)

record prior_box_manager =
  prior_boxes :: "box list"
  background_id :: int
  overlap_threshold :: real
  num_classes :: nat
  box_scale_factors :: scale_factors

definition num_priors :: "prior_box_manager \<Rightarrow> nat" where
  "num_priors self = length (prior_boxes self)"

section \<open>Intersection over union\<close>

text \<open>
  \<open>_calculate_intersection_over_unions\<close>, for one prior box; the method maps it over
  the rows of \<open>self.prior_boxes\<close>. The result is \<open>None\<close> exactly when the union is 0.
\<close>

definition intersection_over_union :: "box \<Rightarrow> box \<Rightarrow> npfloat" where
  "intersection_over_union prior ground_truth_data =
    (let intersections_x_min = max (x_min prior) (x_min ground_truth_data);
         intersections_y_min = max (y_min prior) (y_min ground_truth_data);
         intersections_x_max = min (x_max prior) (x_max ground_truth_data);
         intersections_y_max = min (y_max prior) (y_max ground_truth_data);
         intersected_widths = max (intersections_x_max - intersections_x_min) 0;
         intersected_heights = max (intersections_y_max - intersections_y_min) 0;
         intersections = intersected_widths * intersected_heights;
         prior_box_areas = (x_max prior - x_min prior) * (y_max prior - y_min prior);
         ground_truth_area = (x_max ground_truth_data - x_min ground_truth_data)
                           * (y_max ground_truth_data - y_min ground_truth_data);
         unions = prior_box_areas + ground_truth_area - intersections
     in np_divide intersections unions)"

definition calculate_intersection_over_unions ::
  "prior_box_manager \<Rightarrow> box \<Rightarrow> npfloat list" where
  "calculate_intersection_over_unions self ground_truth_data =
     map (\<lambda>prior. intersection_over_union prior ground_truth_data) (prior_boxes self)"

section \<open>Encoding and decoding\<close>

text \<open>
  \<open>_encode_box\<close>, for one row \<open>d\<close> of \<open>assigned_prior_boxes\<close>: the four columns
  of the encoded row.
\<close>

definition encode_row :: "prior_box_manager \<Rightarrow> box \<Rightarrow> box \<Rightarrow> npfloat list" where
  "encode_row self ground_truth_box d =
    (let d_center_x = 0.5 * (x_min d + x_max d);
         d_center_y = 0.5 * (y_min d + y_max d);
         d_width = x_max d - x_min d;
         d_height = y_max d - y_min d;
         g_width = x_max ground_truth_box - x_min ground_truth_box;
         g_height = y_max ground_truth_box - y_min ground_truth_box;
         g_center_x = 0.5 * (x_min ground_truth_box + x_max ground_truth_box);
         g_center_y = 0.5 * (y_min ground_truth_box + y_max ground_truth_box);
         s = box_scale_factors self;
         g_hat_center_x = np_divide (g_center_x - d_center_x) (d_width * scale_center_x s);
         g_hat_center_y = np_divide (g_center_y - d_center_y) (d_height * scale_center_y s);
         g_hat_width = np_divide_by (np_log (np_divide g_width d_width)) (scale_width s);
         g_hat_height = np_divide_by (np_log (np_divide g_height d_height)) (scale_height s)
     in [g_hat_center_x, g_hat_center_y, g_hat_width, g_hat_height])"

definition encode_box :: "prior_box_manager \<Rightarrow> box list \<Rightarrow> box \<Rightarrow> npfloat list list" where
  "encode_box self assigned_prior_boxes ground_truth_box =
     map (encode_row self ground_truth_box) assigned_prior_boxes"

definition np_clip :: "real \<Rightarrow> real \<Rightarrow> real \<Rightarrow> real" where
  "np_clip v lo hi = min (max v lo) hi"

text \<open>
  \<open>decode_boxes\<close>, for one prior and one row of \<open>predicted_boxes\<close> (at least four
  columns): the four clipped coordinates.
\<close>

definition decode_row :: "prior_box_manager \<Rightarrow> box \<Rightarrow> real list \<Rightarrow> real list" where
  "decode_row self prior predicted =
    (let prior_width = x_max prior - x_min prior;
         prior_height = y_max prior - y_min prior;
         prior_center_x = 0.5 * (x_max prior + x_min prior);
         prior_center_y = 0.5 * (y_max prior + y_min prior);
         pred_center_x = predicted ! 0;
         pred_center_y = predicted ! 1;
         pred_width = predicted ! 2;
         pred_height = predicted ! 3;
         s = box_scale_factors self;
         decoded_center_x = pred_center_x * prior_width * scale_center_x s + prior_center_x;
         decoded_center_y = pred_center_y * prior_height * scale_center_y s + prior_center_y;
         decoded_width = exp (pred_width * scale_width s) * prior_width;
         decoded_height = exp (pred_height * scale_height s) * prior_height;
         decoded_x_min = decoded_center_x - 0.5 * decoded_width;
         decoded_y_min = decoded_center_y - 0.5 * decoded_height;
         decoded_x_max = decoded_center_x + 0.5 * decoded_width;
         decoded_y_max = decoded_center_y + 0.5 * decoded_height
     in map (\<lambda>v. np_clip v 0 1) [decoded_x_min, decoded_y_min, decoded_x_max, decoded_y_max])"

text \<open>
  \<open>decode_boxes\<close> on the whole array. Reading column 3 of an array with fewer than four
  columns raises IndexError. The rows of \<open>predicted_boxes\<close> are combined with the
  priors elementwise; numpy broadcasts when one side has a single row and raises
  ValueError when the row counts differ otherwise. The columns \<open>4:\<close> are appended
  unchanged, which needs as many rows as the decoded array has. An array is a list of rows
  here, so an array without rows counts as wide enough.
\<close>

definition decode_boxes :: "prior_box_manager \<Rightarrow> real list list \<Rightarrow> error + real list list" where
  "decode_boxes self predicted_boxes =
    (let priors = prior_boxes self
     in if list_ex (\<lambda>row. length row < 4) predicted_boxes then Inl IndexError
        else if length predicted_boxes = length priors
          then Inr (map2 (\<lambda>prior row. decode_row self prior row @ drop 4 row)
                      priors predicted_boxes)
        else if length priors = 1
          then Inr (map (\<lambda>row. decode_row self (hd priors) row @ drop 4 row) predicted_boxes)
        else if length predicted_boxes = 1
          then (if length (hd predicted_boxes) > 4 then Inl ValueError
                else Inr (map (\<lambda>prior. decode_row self prior (hd predicted_boxes)) priors))
        else Inl ValueError)"

text \<open>The coordinates of a box as a row.\<close>

definition box_row :: "box \<Rightarrow> real list" where
  "box_row b = [x_min b, y_min b, x_max b, y_max b]"

text \<open>A box inside the unit square.\<close>

definition normalized_box :: "box \<Rightarrow> bool" where
  "normalized_box b = (0 \<le> x_min b \<and> 0 \<le> y_min b \<and> x_max b \<le> 1 \<and> y_max b \<le> 1)"

definition nonzero_scale_factors :: "scale_factors \<Rightarrow> bool" where
  "nonzero_scale_factors s = (scale_center_x s \<noteq> 0 \<and> scale_center_y s \<noteq> 0
     \<and> scale_width s \<noteq> 0 \<and> scale_height s \<noteq> 0)"

section \<open>Assigning prior boxes\<close>

text \<open>
  \<open>argmax\<close> and \<open>max\<close> of numpy on a non-empty vector: \<open>nan\<close> counts as the
  largest value, and of several largest entries the first wins. \<open>beats c x\<close> says that
  a later candidate \<open>c\<close> replaces an earlier entry \<open>x\<close>. On an empty vector numpy
  raises ValueError, which the callers below write out.
\<close>

definition beats :: "npfloat \<Rightarrow> npfloat \<Rightarrow> bool" where
  "beats c x = (case x of None \<Rightarrow> False
                | Some xv \<Rightarrow> (case c of None \<Rightarrow> True | Some cv \<Rightarrow> xv < cv))"

fun np_argmax :: "npfloat list \<Rightarrow> nat" where
  "np_argmax [] = 0"
| "np_argmax [x] = 0"
| "np_argmax (x # y # ys) =
     (let j = np_argmax (y # ys) in if beats ((y # ys) ! j) x then Suc j else 0)"

fun np_amax :: "npfloat list \<Rightarrow> npfloat" where
  "np_amax [] = None"
| "np_amax [x] = x"
| "np_amax (x # y # ys) = (let m = np_amax (y # ys) in if beats m x then m else x)"

text \<open>
  The mask of \<open>_assign_boxes_to_object\<close>: the priors whose intersection over union
  with the box exceeds the threshold, or, when there is none, the prior \<open>argmax\<close>
  picks. Without any prior \<open>ious.argmax()\<close> raises ValueError.
\<close>

definition assign_mask :: "prior_box_manager \<Rightarrow> box \<Rightarrow> error + bool list" where
  "assign_mask self ground_truth_box =
    (let ious = calculate_intersection_over_unions self ground_truth_box;
         above = map (\<lambda>iou. np_greater iou (overlap_threshold self)) ious
     in if \<not> list_ex (\<lambda>m. m) above
        then (if ious = [] then Inl ValueError
              else Inr (above[np_argmax ious := True]))
        else Inr above)"

text \<open>
  \<open>_assign_boxes_to_object\<close> with \<open>return_iou=True\<close>, as \<open>assign_boxes\<close> calls
  it: one row of five entries per prior, the encoded box in columns \<open>0:4\<close> and the
  intersection over union in the last column where the mask is set, zeros elsewhere (the
  result before \<open>ravel\<close>, which \<open>assign_boxes\<close> undoes with \<open>reshape\<close>). The
  method also appends the selected priors to the list \<open>self.assigned_prior_boxes\<close>,
  which no method reads; \<open>selected_prior_boxes\<close> is the appended entry.
\<close>

definition assign_boxes_to_object ::
  "prior_box_manager \<Rightarrow> box \<Rightarrow> error + npfloat list list" where
  "assign_boxes_to_object self ground_truth_box =
    (let ious = calculate_intersection_over_unions self ground_truth_box
     in case assign_mask self ground_truth_box of
          Inl e \<Rightarrow> Inl e
        | Inr selected \<Rightarrow>
            Inr (map (\<lambda>(prior, m, iou).
                        if m then encode_row self ground_truth_box prior @ [iou]
                        else replicate 5 (Some 0))
                   (zip (prior_boxes self) (zip selected ious))))"

definition selected_prior_boxes :: "prior_box_manager \<Rightarrow> box \<Rightarrow> error + box list" where
  "selected_prior_boxes self ground_truth_box =
    (case assign_mask self ground_truth_box of
       Inl e \<Rightarrow> Inl e
     | Inr selected \<Rightarrow> Inr (map fst (filter snd (zip (prior_boxes self) selected))))"

text \<open>The calls of \<open>np.apply_along_axis\<close> in order; the first exception ends them.\<close>

fun collect :: "(error + 'a) list \<Rightarrow> error + 'a list" where
  "collect [] = Inr []"
| "collect (Inl e # rs) = Inl e"
| "collect (Inr v # rs) = (case collect rs of Inl e \<Rightarrow> Inl e | Inr vs \<Rightarrow> Inr (v # vs))"

text \<open>
  A row of \<open>assignments\<close> as \<open>assign_boxes\<close> initialises it: \<open>4 + num_classes + 8\<close>
  zeros, and 1 in column \<open>4 + background_id\<close> (a negative column index counts from the
  end; a column outside the row raises IndexError).
\<close>

definition background_row :: "prior_box_manager \<Rightarrow> error + npfloat list" where
  "background_row self =
    (let width = 4 + num_classes self + 8;
         column = 4 + background_id self;
         column = (if column < 0 then column + int width else column)
     in if 0 \<le> column \<and> column < int width
        then Inr ((replicate width (Some 0))[nat column := Some 1])
        else Inl IndexError)"

text \<open>
  The value written into the class columns \<open>5:-8\<close> of an assigned row: the columns
  \<open>5:\<close> of the winning ground-truth row. numpy broadcasts a single source column to
  the target columns.
\<close>

definition class_columns :: "prior_box_manager \<Rightarrow> ground_truth \<Rightarrow> npfloat list" where
  "class_columns self g =
    (let source = drop 1 (gt_classes g); target = num_classes self - 1
     in if length source = target then map Some source
        else replicate target (Some (hd source)))"

text \<open>
  Whether the source columns \<open>5:\<close> fit the target columns \<open>5:-8\<close>: the same count,
  or one source column. Otherwise the assignment raises ValueError.
\<close>

definition class_columns_fit :: "prior_box_manager \<Rightarrow> ground_truth \<Rightarrow> bool" where
  "class_columns_fit self g =
    (let source = drop 1 (gt_classes g); target = num_classes self - 1
     in length source = target \<or> length source = 1)"

text \<open>
  The column \<open>[:, :, -1]\<close> of \<open>encoded_boxes\<close> at prior \<open>i\<close>, over the
  ground-truth boxes; its maximum is \<open>best_iou\<close> and its argmax \<open>best_iou_indices\<close>.
\<close>

definition iou_column :: "npfloat list list list \<Rightarrow> nat \<Rightarrow> npfloat list" where
  "iou_column encoded_boxes i = map (\<lambda>object. last (object ! i)) encoded_boxes"

text \<open>
  Lines 107 to 119 of \<open>assign_boxes\<close> for the row of prior \<open>i\<close>: where
  \<open>best_iou > 0\<close>, the encoded box of the best ground-truth box goes to columns
  \<open>0:4\<close>, 0 to column 4, its class columns to \<open>5:-8\<close> and 1 to column \<open>-8\<close>.
\<close>

definition assign_row ::
  "prior_box_manager \<Rightarrow> ground_truth list \<Rightarrow> npfloat list list list \<Rightarrow> nat
     \<Rightarrow> npfloat list \<Rightarrow> npfloat list" where
  "assign_row self ground_truth_data encoded_boxes i row =
    (let best_iou = np_amax (iou_column encoded_boxes i);
         best_iou_index = np_argmax (iou_column encoded_boxes i);
         best_iou_mask = np_greater best_iou 0
     in if best_iou_mask
        then (let row = take 4 (encoded_boxes ! best_iou_index ! i) @ drop 4 row;
                  row = row[4 := Some 0];
                  classes = class_columns self (ground_truth_data ! best_iou_index);
                  row = take 5 row @ classes @ drop (5 + length classes) row;
                  row = row[length row - 8 := Some 1]
              in row)
        else row)"

definition assign_boxes ::
  "prior_box_manager \<Rightarrow> ground_truth list \<Rightarrow> error + npfloat list list" where
  "assign_boxes self ground_truth_data =
    (case background_row self of
       Inl e \<Rightarrow> Inl e
     | Inr row \<Rightarrow>
        (let assignments = replicate (num_priors self) row;
             num_objects_in_image = length ground_truth_data
         in if num_objects_in_image = 0 then Inr assignments
            else (case collect (map (\<lambda>g. assign_boxes_to_object self (gt_box g))
                                  ground_truth_data) of
                    Inl e \<Rightarrow> Inl e
                  | Inr encoded_boxes \<Rightarrow>
                      if list_all (class_columns_fit self) ground_truth_data
                      then Inr (map (\<lambda>i. assign_row self ground_truth_data encoded_boxes i
                                            (assignments ! i))
                                  [0..<num_priors self])
                      else Inl ValueError)))"

subsection \<open>Vocabulary for the statements about assignments\<close>

text \<open>The intersection over union of prior \<open>i\<close> with ground-truth box \<open>k\<close>.\<close>

definition iou_at :: "prior_box_manager \<Rightarrow> ground_truth list \<Rightarrow> nat \<Rightarrow> nat \<Rightarrow> npfloat" where
  "iou_at self ground_truth_data i k =
     intersection_over_union (prior_boxes self ! i) (gt_box (ground_truth_data ! k))"

text \<open>The mask of \<open>_assign_boxes_to_object\<close> when there is a prior.\<close>

definition object_mask :: "prior_box_manager \<Rightarrow> box \<Rightarrow> bool list" where
  "object_mask self ground_truth_box =
    (let ious = calculate_intersection_over_unions self ground_truth_box;
         above = map (\<lambda>iou. np_greater iou (overlap_threshold self)) ious
     in if list_ex (\<lambda>m. m) above then above else above[np_argmax ious := True])"

text \<open>The rows of \<open>_assign_boxes_to_object\<close> when there is a prior.\<close>

definition object_rows :: "prior_box_manager \<Rightarrow> box \<Rightarrow> npfloat list list" where
  "object_rows self ground_truth_box =
     map (\<lambda>(prior, m, iou). if m then encode_row self ground_truth_box prior @ [iou]
                            else replicate 5 (Some 0))
       (zip (prior_boxes self)
          (zip (object_mask self ground_truth_box)
             (calculate_intersection_over_unions self ground_truth_box)))"

text \<open>
  The last column of these rows at prior \<open>i\<close>, for the ground-truth row \<open>g\<close>: what
  \<open>assign_boxes\<close> compares.
\<close>

definition stored_iou :: "prior_box_manager \<Rightarrow> ground_truth \<Rightarrow> nat \<Rightarrow> npfloat" where
  "stored_iou self g i =
     (if object_mask self (gt_box g) ! i
      then intersection_over_union (prior_boxes self ! i) (gt_box g) else Some 0)"

text \<open>
  An assigned row of the matrix for prior \<open>i\<close> and ground-truth row \<open>g\<close>: the encoded
  box, background flag 0, the class columns \<open>5:\<close> of \<open>g\<close>, then 1 and seven zeros in
  the last eight columns.
\<close>

definition assigned_row :: "prior_box_manager \<Rightarrow> ground_truth \<Rightarrow> nat \<Rightarrow> npfloat list" where
  "assigned_row self g i =
     encode_row self (gt_box g) (prior_boxes self ! i) @ [Some 0]
       @ map Some (drop 1 (gt_classes g)) @ [Some 1] @ replicate 7 (Some 0)"

text \<open>
  A row that no ground-truth box holds: zeros, and 1 in the column of the background
  class.
\<close>

definition unassigned_row :: "prior_box_manager \<Rightarrow> npfloat list" where
  "unassigned_row self =
     replicate 4 (Some 0)
       @ (replicate (num_classes self) (Some 0))[nat (background_id self) := Some 1]
       @ replicate 8 (Some 0)"

text \<open>The configuration the statements are about: the background class is a class.\<close>

definition background_is_class :: "prior_box_manager \<Rightarrow> bool" where
  "background_is_class self =
     (0 \<le> background_id self \<and> background_id self < int (num_classes self))"

text \<open>Every ground-truth row has four coordinates and one column per class.\<close>

definition one_column_per_class :: "prior_box_manager \<Rightarrow> ground_truth list \<Rightarrow> bool" where
  "one_column_per_class self ground_truth_data =
     list_all (\<lambda>g. length (gt_classes g) = num_classes self) ground_truth_data"

text \<open>The finite deltas of a valid box against a valid prior, as real numbers.\<close>

definition finite_deltas :: "prior_box_manager \<Rightarrow> box \<Rightarrow> box \<Rightarrow> real list" where
  "finite_deltas self g d =
    [(0.5 * (x_min g + x_max g) - 0.5 * (x_min d + x_max d))
       / ((x_max d - x_min d) * scale_center_x (box_scale_factors self)),
     (0.5 * (y_min g + y_max g) - 0.5 * (y_min d + y_max d))
       / ((y_max d - y_min d) * scale_center_y (box_scale_factors self)),
     ln ((x_max g - x_min g) / (x_max d - x_min d)) / scale_width (box_scale_factors self),
     ln ((y_max g - y_min g) / (y_max d - y_min d)) / scale_height (box_scale_factors self)]"

subsection \<open>Vocabulary for the statements\<close>

definition box_width :: "box \<Rightarrow> real" where
  "box_width b = x_max b - x_min b"

definition box_height :: "box \<Rightarrow> real" where
  "box_height b = y_max b - y_min b"

definition box_area :: "box \<Rightarrow> real" where
  "box_area b = box_width b * box_height b"

definition intersected_width :: "box \<Rightarrow> box \<Rightarrow> real" where
  "intersected_width a b = max (min (x_max a) (x_max b) - max (x_min a) (x_min b)) 0"

definition intersected_height :: "box \<Rightarrow> box \<Rightarrow> real" where
  "intersected_height a b = max (min (y_max a) (y_max b) - max (y_min a) (y_min b)) 0"

definition intersection_area :: "box \<Rightarrow> box \<Rightarrow> real" where
  "intersection_area a b = intersected_width a b * intersected_height a b"

text \<open>A valid box: \<open>x_min < x_max\<close> and \<open>y_min < y_max\<close>.\<close>

definition valid_box :: "box \<Rightarrow> bool" where
  "valid_box b = (x_min b < x_max b \<and> y_min b < y_max b)"

text \<open>Two boxes that share no interior point.\<close>

definition disjoint_boxes :: "box \<Rightarrow> box \<Rightarrow> bool" where
  "disjoint_boxes a b =
     (x_max a \<le> x_min b \<or> x_max b \<le> x_min a \<or> y_max a \<le> y_min b \<or> y_max b \<le> y_min a)"

text \<open>A degenerate box: empty in one direction (\<open>max \<le> min\<close>).\<close>

definition degenerate_box :: "box \<Rightarrow> bool" where
  "degenerate_box b = (x_max b \<le> x_min b \<or> y_max b \<le> y_min b)"

section \<open>The image generator\<close>

text \<open>
  An image is an array of shape \<open>(height, width, 3)\<close>: rows of pixels with three
  channels. The ground-truth arrays are numpy arrays that \<open>ground_truth_data\<close> holds by
  reference and that the flips write to, so they live in a heap, and a dictionary entry,
  a parameter \<open>box_corners\<close> or a variable \<open>box_data\<close> is the address of an array.
\<close>

type_synonym pixel = "real \<times> real \<times> real"
type_synonym image = "pixel list list"
type_synonym addr = nat
type_synonym heap = "addr \<Rightarrow> ground_truth list"

datatype jitter = Saturation | Brightness | Contrast

text \<open>
  The attributes of an \<open>ImageGenerator\<close>. The three variances are attributes that
  \<open>__init__\<close> sets only under a condition: \<open>None\<close> is an attribute that was never set.
  \<open>do_crop\<close>, \<open>crop_area_range\<close> and \<open>aspect_ratio_range\<close> are stored and never read,
  and are left out.
\<close>

record image_generator =
  negative_positive_ratio :: int
  ground_truth_data :: "string \<rightharpoonup> addr"
  box_manager :: prior_box_manager
  batch_size :: int
  path_prefix :: "string option"
  train_keys :: "string list"
  validation_keys :: "string list"
  image_size :: "nat \<times> nat"
  suffix :: string
  color_jitter :: "jitter list"
  saturation_var :: "real option"
  brightness_var :: "real option"
  contrast_var :: "real option"
  lighting_std :: real
  horizontal_flip_probability :: real
  vertical_flip_probability :: real

text \<open>\<open>__init__\<close>: \<open>if saturation_var:\<close> holds for a number that is not 0.\<close>

definition init_image_generator ::
  "(string \<rightharpoonup> addr) \<Rightarrow> prior_box_manager \<Rightarrow> int \<Rightarrow> nat \<times> nat \<Rightarrow> string list
     \<Rightarrow> string list \<Rightarrow> string option \<Rightarrow> string \<Rightarrow> int \<Rightarrow> real \<Rightarrow> real \<Rightarrow> real \<Rightarrow> real
     \<Rightarrow> real \<Rightarrow> real \<Rightarrow> image_generator" where
  "init_image_generator ground_truth_data' box_manager' batch_size' image_size' train_keys'
     validation_keys' path_prefix' suffix' negative_positive_ratio' saturation_var'
     brightness_var' contrast_var' lighting_std' horizontal_flip_probability'
     vertical_flip_probability' =
    \<lparr>negative_positive_ratio = negative_positive_ratio',
     ground_truth_data = ground_truth_data',
     box_manager = box_manager',
     batch_size = batch_size',
     path_prefix = path_prefix',
     train_keys = train_keys',
     validation_keys = validation_keys',
     image_size = image_size',
     suffix = suffix',
     color_jitter = (if saturation_var' \<noteq> 0 then [Saturation] else [])
                  @ (if brightness_var' \<noteq> 0 then [Brightness] else [])
                  @ (if contrast_var' \<noteq> 0 then [Contrast] else []),
     saturation_var = (if saturation_var' \<noteq> 0 then Some saturation_var' else None),
     brightness_var = (if brightness_var' \<noteq> 0 then Some brightness_var' else None),
     contrast_var = (if contrast_var' \<noteq> 0 then Some contrast_var' else None),
     lighting_std = lighting_std',
     horizontal_flip_probability = horizontal_flip_probability',
     vertical_flip_probability = vertical_flip_probability'\<rparr>"

subsection \<open>Colour jitter\<close>

definition gray_scale :: "pixel \<Rightarrow> real" where
  "gray_scale p = (case p of (r, g, b) \<Rightarrow> 0.299 * r + 0.587 * g + 0.114 * b)"

definition clip_pixel :: "pixel \<Rightarrow> pixel" where
  "clip_pixel p = (case p of (r, g, b) \<Rightarrow> (np_clip r 0 255, np_clip g 0 255, np_clip b 0 255))"

text \<open>
  \<open>alpha * image_array + beta * reference\<close> on one pixel, where the reference has one
  value for the three channels.
\<close>

definition blend :: "real \<Rightarrow> real \<Rightarrow> real \<Rightarrow> pixel \<Rightarrow> pixel" where
  "blend alpha beta reference p =
     (case p of (r, g, b) \<Rightarrow>
        (alpha * r + beta * reference, alpha * g + beta * reference,
         alpha * b + beta * reference))"

text \<open>
  The three transforms; \<open>u\<close> is what \<open>np.random.random()\<close> returns in the call.
  Reading an attribute that was never set raises AttributeError.
\<close>

definition saturation :: "image_generator \<Rightarrow> real \<Rightarrow> image \<Rightarrow> error + image" where
  "saturation self u image_array =
    (case brightness_var self of
       None \<Rightarrow> Inl AttributeError
     | Some b_var \<Rightarrow>
        (case saturation_var self of
           None \<Rightarrow> Inl AttributeError
         | Some s_var \<Rightarrow>
            (let alpha = 2.0 * u * b_var;
                 alpha = alpha + 1 - s_var
             in Inr (map (map (\<lambda>p. clip_pixel (blend alpha (1 - alpha) (gray_scale p) p)))
                       image_array))))"

definition brightness :: "image_generator \<Rightarrow> real \<Rightarrow> image \<Rightarrow> error + image" where
  "brightness self u image_array =
    (case brightness_var self of
       None \<Rightarrow> Inl AttributeError
     | Some b_var \<Rightarrow>
        (case saturation_var self of
           None \<Rightarrow> Inl AttributeError
         | Some s_var \<Rightarrow>
            (let alpha = 2 * u * b_var;
                 alpha = alpha + 1 - s_var
             in Inr (map (map (\<lambda>p. clip_pixel (blend alpha 0 0 p))) image_array))))"

text \<open>
  The mean of the gray scale over all pixels; on an image without pixels numpy gives
  \<open>nan\<close>, which no pixel then uses.
\<close>

definition mean_gray_scale :: "image \<Rightarrow> real" where
  "mean_gray_scale image_array =
    (let pixels = concat image_array
     in if pixels = [] then 0
        else sum_list (map gray_scale pixels) / real (length pixels))"

definition contrast :: "image_generator \<Rightarrow> real \<Rightarrow> image \<Rightarrow> error + image" where
  "contrast self u image_array =
    (let gray = mean_gray_scale image_array
     in case contrast_var self of
          None \<Rightarrow> Inl AttributeError
        | Some c_var \<Rightarrow>
           (let alpha = 2 * u * c_var;
                alpha = alpha + 1 - c_var
            in Inr (map (map (\<lambda>p. clip_pixel (blend alpha (1 - alpha) gray p)))
                      image_array)))"

fun apply_jitter :: "image_generator \<Rightarrow> real \<Rightarrow> jitter \<Rightarrow> image \<Rightarrow> error + image" where
  "apply_jitter self u Saturation image_array = saturation self u image_array"
| "apply_jitter self u Brightness image_array = brightness self u image_array"
| "apply_jitter self u Contrast image_array = contrast self u image_array"

text \<open>
  The loop \<open>for jitter in self.color_jitter\<close>; \<open>draws n\<close> is the random number of the
  \<open>n\<close>-th transform applied.
\<close>

fun apply_jitters ::
  "image_generator \<Rightarrow> (nat \<Rightarrow> real) \<Rightarrow> nat \<Rightarrow> jitter list \<Rightarrow> image \<Rightarrow> error + image" where
  "apply_jitters self draws n [] image_array = Inr image_array"
| "apply_jitters self draws n (jitter # rest) image_array =
     (case apply_jitter self (draws n) jitter image_array of
        Inl e \<Rightarrow> Inl e
      | Inr image_array \<Rightarrow> apply_jitters self draws (Suc n) rest image_array)"

subsection \<open>Flips\<close>

definition flip_columns_0_2 :: "ground_truth \<Rightarrow> ground_truth" where
  "flip_columns_0_2 g =
     (case gt_box g of Box x0 y0 x1 y1 \<Rightarrow> Ground_truth (Box (1 - x1) y0 (1 - x0) y1) (gt_classes g))"

definition flip_columns_1_3 :: "ground_truth \<Rightarrow> ground_truth" where
  "flip_columns_1_3 g =
     (case gt_box g of Box x0 y0 x1 y1 \<Rightarrow> Ground_truth (Box x0 (1 - y1) x1 (1 - y0)) (gt_classes g))"

text \<open>
  \<open>horizontal_flip\<close> and \<open>vertical_flip\<close>: the image is rebound to a reversed view; the
  assignment \<open>box_corners[:, [0, 2]] = 1 - box_corners[:, [2, 0]]\<close> writes into the array
  at the address \<open>box_corners\<close>, and this address is returned.
\<close>

definition horizontal_flip ::
  "image_generator \<Rightarrow> real \<Rightarrow> image \<Rightarrow> addr \<Rightarrow> heap \<Rightarrow> image \<times> addr \<times> heap" where
  "horizontal_flip self u image_array box_corners heap =
    (if u < horizontal_flip_probability self
     then (map rev image_array, box_corners,
           heap(box_corners := map flip_columns_0_2 (heap box_corners)))
     else (image_array, box_corners, heap))"

definition vertical_flip ::
  "image_generator \<Rightarrow> real \<Rightarrow> image \<Rightarrow> addr \<Rightarrow> heap \<Rightarrow> image \<times> addr \<times> heap" where
  "vertical_flip self u image_array box_corners heap =
    (if u < vertical_flip_probability self
     then (rev image_array, box_corners,
           heap(box_corners := map flip_columns_1_3 (heap box_corners)))
     else (image_array, box_corners, heap))"

subsection \<open>Transform\<close>

text \<open>
  What the random number generator returns during one call of \<open>transform\<close>: the order
  \<open>random.shuffle\<close> gives to \<open>self.color_jitter\<close> (as a permutation of its indices), the
  number drawn by each colour transform, and the numbers drawn by the two flips.
  \<open>lighting\<close> computes a covariance matrix and its eigenvectors; it is not modelled, and
  \<open>lighting_result\<close> stands for it with the noise it draws.
\<close>

record transform_draws =
  shuffle_order :: "nat list"
  jitter_draws :: "nat \<Rightarrow> real"
  lighting_result :: "image \<Rightarrow> error + image"
  horizontal_draw :: real
  vertical_draw :: real

text \<open>A list rearranged in place by \<open>shuffle\<close>, for the permutation of indices drawn.\<close>

definition shuffled :: "nat list \<Rightarrow> 'a list \<Rightarrow> 'a list" where
  "shuffled order xs = map (\<lambda>i. xs ! i) order"

definition is_permutation :: "nat list \<Rightarrow> nat \<Rightarrow> bool" where
  "is_permutation order n = (distinct order \<and> set order = {..<n})"

text \<open>
  \<open>transform\<close> returns the generator (whose \<open>color_jitter\<close> list is now shuffled), the
  image, the address of the boxes and the heap.
\<close>

definition transform ::
  "image_generator \<Rightarrow> transform_draws \<Rightarrow> image \<Rightarrow> addr \<Rightarrow> heap
     \<Rightarrow> error + (image_generator \<times> image \<times> addr \<times> heap)" where
  "transform self draws image_array box_corners heap =
    (let self = self\<lparr>color_jitter := shuffled (shuffle_order draws) (color_jitter self)\<rparr>
     in case apply_jitters self (jitter_draws draws) 0 (color_jitter self) image_array of
          Inl e \<Rightarrow> Inl e
        | Inr image_array \<Rightarrow>
           (case (if lighting_std self \<noteq> 0 then lighting_result draws image_array
                  else Inr image_array) of
              Inl e \<Rightarrow> Inl e
            | Inr image_array \<Rightarrow>
               (let (image_array, box_corners, heap) =
                      (if horizontal_flip_probability self > 0
                       then horizontal_flip self (horizontal_draw draws) image_array
                              box_corners heap
                       else (image_array, box_corners, heap));
                    (image_array, box_corners, heap) =
                      (if vertical_flip_probability self > 0
                       then vertical_flip self (vertical_draw draws) image_array
                              box_corners heap
                       else (image_array, box_corners, heap))
                in Inr (self, image_array, box_corners, heap))))"

subsection \<open>Keys, denormalising, sampling and cropping\<close>

text \<open>
  \<open>_mangage_keys\<close>: the key list of the mode is shuffled in place. For any other mode
  the variable \<open>keys\<close> is never bound and \<open>return keys\<close> raises UnboundLocalError.
\<close>

definition mangage_keys ::
  "image_generator \<Rightarrow> nat list \<Rightarrow> string \<Rightarrow> error + (image_generator \<times> string list)" where
  "mangage_keys self order mode =
    (if mode = ''train''
     then (let keys = shuffled order (train_keys self)
           in Inr (self\<lparr>train_keys := keys\<rparr>, keys))
     else if mode = ''val'' \<or> mode = ''demo''
     then (let keys = shuffled order (validation_keys self)
           in Inr (self\<lparr>validation_keys := keys\<rparr>, keys))
     else Inl UnboundLocalError)"

text \<open>An entry times a finite number; a non-finite entry stays non-finite.\<close>

definition np_multiply :: "npfloat \<Rightarrow> real \<Rightarrow> npfloat" where
  "np_multiply a b = (case a of None \<Rightarrow> None | Some v \<Rightarrow> Some (v * b))"

text \<open>
  \<open>_denormalize_box\<close>: columns 0 and 2 times the width, columns 1 and 3 times the
  height of the image. The array it writes to is the fresh one \<open>assign_boxes\<close> returned.
\<close>

definition denormalize_box ::
  "npfloat list list \<Rightarrow> nat \<times> nat \<Rightarrow> error + npfloat list list" where
  "denormalize_box box_coordinates original_image_size =
    (case original_image_size of (original_image_height, original_image_width) \<Rightarrow>
       if list_ex (\<lambda>row. length row < 4) box_coordinates then Inl IndexError
       else Inr (map (\<lambda>row.
                   (let row = row[0 := np_multiply (row ! 0) (real original_image_width)];
                        row = row[1 := np_multiply (row ! 1) (real original_image_height)];
                        row = row[2 := np_multiply (row ! 2) (real original_image_width)];
                        row = row[3 := np_multiply (row ! 3) (real original_image_height)]
                    in row))
                 box_coordinates))"

text \<open>\<open>xs[:k]\<close> of Python: a negative \<open>k\<close> leaves out the last \<open>-k\<close> entries.\<close>

definition py_prefix :: "int \<Rightarrow> 'a list \<Rightarrow> 'a list" where
  "py_prefix k xs = (if k < 0 then take (length xs - nat (- k)) xs else take (nat k) xs)"

text \<open>
  \<open>_select_samples\<close>. \<open>permutation\<close> is what \<open>np.random.permutation\<close> returns for the
  number of background rows. \<open>np.unravel_index\<close> with a one-dimensional shape returns
  the indices it is given, and raises ValueError for an index outside the shape. Reading
  column 4 of an array with fewer than five columns raises IndexError.
\<close>

definition select_samples ::
  "image_generator \<Rightarrow> nat list \<Rightarrow> npfloat list list
     \<Rightarrow> error + (npfloat list list \<times> npfloat list list)" where
  "select_samples self permutation assigned_data =
    (if list_ex (\<lambda>row. length row < 5) assigned_data then Inl IndexError
     else (let object_data = filter (\<lambda>row. row ! 4 \<noteq> Some 1) assigned_data;
               background_data = filter (\<lambda>row. \<not> row ! 4 \<noteq> Some 1) assigned_data;
               num_assigned_boxes = length object_data;
               num_background_boxes = length background_data;
               random_args = permutation;
               num_negative_boxes = negative_positive_ratio self * int num_assigned_boxes;
               random_args = py_prefix num_negative_boxes random_args
           in if list_ex (\<lambda>arg. num_background_boxes \<le> arg) random_args then Inl ValueError
              else Inr (object_data, map (\<lambda>arg. background_data ! arg) random_args)))"

text \<open>
  \<open>int\<close> of a float truncates towards 0; on \<open>nan\<close> it raises ValueError and on
  \<open>\<plusminus>inf\<close> OverflowError, both \<open>FloatToIntError\<close> here.
\<close>

definition py_int :: "npfloat \<Rightarrow> error + int" where
  "py_int a = (case a of None \<Rightarrow> Inl FloatToIntError
               | Some v \<Rightarrow> Inr (if 0 \<le> v then \<lfloor>v\<rfloor> else \<lceil>v\<rceil>))"

text \<open>\<open>xs[start:stop]\<close>: negative bounds count from the end, and bounds are clamped.\<close>

definition py_slice :: "int \<Rightarrow> int \<Rightarrow> 'a list \<Rightarrow> 'a list" where
  "py_slice start stop xs =
    (let n = int (length xs);
         lo = (if start < 0 then max (start + n) 0 else min start n);
         hi = (if stop < 0 then max (stop + n) 0 else min stop n)
     in take (nat (hi - lo)) (drop (nat lo) xs))"

definition crop_bounding_box :: "image \<Rightarrow> npfloat list \<Rightarrow> error + image" where
  "crop_bounding_box image_array box_data =
    (case py_int (box_data ! 0) of Inl e \<Rightarrow> Inl e | Inr x_min' \<Rightarrow>
     case py_int (box_data ! 1) of Inl e \<Rightarrow> Inl e | Inr y_min' \<Rightarrow>
     case py_int (box_data ! 2) of Inl e \<Rightarrow> Inl e | Inr x_max' \<Rightarrow>
     case py_int (box_data ! 3) of Inl e \<Rightarrow> Inl e | Inr y_max' \<Rightarrow>
       Inr (map (py_slice x_min' x_max') (py_slice y_min' y_max' image_array)))"

text \<open>
  The functions of \<open>utils\<close> that the generator calls; their code is not part of the
  sources, and they are parameters.
\<close>

record collaborators =
  read_image :: "string \<Rightarrow> image"
  resize_image :: "image \<Rightarrow> nat \<times> nat \<Rightarrow> image"
  preprocess_images :: "image list \<Rightarrow> image list"

text \<open>
  The loop of \<open>_crop_bounding_boxes\<close> over the selected rows: a crop with a dimension 0
  is skipped, any other is resized and kept with the columns \<open>4:\<close> of its row.
\<close>

fun crop_rows ::
  "image_generator \<Rightarrow> collaborators \<Rightarrow> image \<Rightarrow> npfloat list list
     \<Rightarrow> error + (image list \<times> npfloat list list)" where
  "crop_rows self ext image_array [] = Inr ([], [])"
| "crop_rows self ext image_array (object_data # rest) =
    (case crop_bounding_box image_array object_data of
       Inl e \<Rightarrow> Inl e
     | Inr cropped_array \<Rightarrow>
        (case crop_rows self ext image_array rest of
           Inl e \<Rightarrow> Inl e
         | Inr (images, classes) \<Rightarrow>
            if cropped_array = [] \<or> hd cropped_array = [] then Inr (images, classes)
            else Inr (resize_image ext cropped_array (image_size self) # images,
                      drop 4 object_data # classes)))"

definition crop_bounding_boxes ::
  "image_generator \<Rightarrow> collaborators \<Rightarrow> nat list \<Rightarrow> image \<Rightarrow> npfloat list list
     \<Rightarrow> error + (image list \<times> npfloat list list)" where
  "crop_bounding_boxes self ext permutation image_array assigned_data =
    (case select_samples self permutation assigned_data of
       Inl e \<Rightarrow> Inl e
     | Inr (object_data, background_data) \<Rightarrow>
         crop_rows self ext image_array (object_data @ background_data))"

subsection \<open>Flow\<close>

text \<open>The random values of one pass through the body of \<open>for key in keys\<close>.\<close>

record key_draws =
  transform_random :: transform_draws
  sample_permutation :: "nat list"
  batch_permutation :: "nat list"

definition image_width :: "image \<Rightarrow> nat" where
  "image_width image_array = (if image_array = [] then 0 else length (hd image_array))"

text \<open>
  Lines 182 to 193 of \<open>flow\<close> for one key: the generator and the heap after them, and
  the images and classes of the key. \<open>self.path_prefix\<close> is \<open>None\<close> by default, and
  \<open>None + key\<close> raises TypeError; a key without ground truth raises KeyError.
\<close>

definition flow_key ::
  "image_generator \<Rightarrow> collaborators \<Rightarrow> key_draws \<Rightarrow> string \<Rightarrow> string \<Rightarrow> heap
     \<Rightarrow> error + (image_generator \<times> heap \<times> image list \<times> npfloat list list)" where
  "flow_key self ext draws mode key heap =
    (case path_prefix self of
       None \<Rightarrow> Inl TypeError
     | Some prefix \<Rightarrow>
        (let image_path = prefix @ key @ suffix self;
             image_array = read_image ext image_path;
             original_image_size = (length image_array, image_width image_array)
         in case ground_truth_data self key of
              None \<Rightarrow> Inl KeyError
            | Some box_data \<Rightarrow>
               (case (if mode = ''train'' \<or> mode = ''demo''
                      then transform self (transform_random draws) image_array box_data heap
                      else Inr (self, image_array, box_data, heap)) of
                  Inl e \<Rightarrow> Inl e
                | Inr (self, image_array, box_data, heap) \<Rightarrow>
                   (case assign_boxes (box_manager self) (heap box_data) of
                      Inl e \<Rightarrow> Inl e
                    | Inr assigned_data \<Rightarrow>
                       (case denormalize_box assigned_data original_image_size of
                          Inl e \<Rightarrow> Inl e
                        | Inr assigned_data \<Rightarrow>
                           (case crop_bounding_boxes self ext (sample_permutation draws)
                                   image_array assigned_data of
                              Inl e \<Rightarrow> Inl e
                            | Inr (images, classes) \<Rightarrow>
                                Inr (self, heap, images, classes)))))))"

text \<open>
  The state of the generator between two keys: the generator object, the heap, the two
  accumulators and the batches yielded so far.
\<close>

record flow_state =
  generator :: image_generator
  arrays :: heap
  inputs :: "image list"
  targets :: "npfloat list list"
  yielded :: "(image list \<times> npfloat list list) list"

text \<open>
  The body of \<open>for key in keys\<close>: the images and classes of the key are appended, and a
  batch is yielded once \<open>batch_size\<close> targets are there, shuffled by one permutation and
  preprocessed in the modes \<open>train\<close> and \<open>val\<close>.
\<close>

definition flow_step ::
  "collaborators \<Rightarrow> string \<Rightarrow> key_draws \<Rightarrow> string \<Rightarrow> flow_state \<Rightarrow> error + flow_state" where
  "flow_step ext mode draws key st =
    (case flow_key (generator st) ext draws mode key (arrays st) of
       Inl e \<Rightarrow> Inl e
     | Inr (self, heap, images, classes) \<Rightarrow>
        (let inputs = inputs st @ images;
             targets = targets st @ classes
         in if batch_size self \<le> int (length targets)
            then (if length inputs \<noteq> length targets then Inl AssertionError
                  else (let inputs = shuffled (batch_permutation draws) inputs;
                            targets = shuffled (batch_permutation draws) targets;
                            batch = (if mode = ''train'' \<or> mode = ''val''
                                     then [(preprocess_images ext inputs, targets)]
                                     else if mode = ''demo'' then [(inputs, targets)]
                                     else [])
                        in Inr (st\<lparr>generator := self, arrays := heap, inputs := [],
                                   targets := [], yielded := yielded st @ batch\<rparr>)))
            else Inr (st\<lparr>generator := self, arrays := heap, inputs := inputs,
                         targets := targets\<rparr>)))"

fun flow_keys ::
  "collaborators \<Rightarrow> string \<Rightarrow> (nat \<Rightarrow> key_draws) \<Rightarrow> nat \<Rightarrow> string list \<Rightarrow> flow_state
     \<Rightarrow> error + flow_state" where
  "flow_keys ext mode draws n [] st = Inr st"
| "flow_keys ext mode draws n (key # keys) st =
    (case flow_step ext mode (draws n) key st of
       Inl e \<Rightarrow> Inl e
     | Inr st \<Rightarrow> flow_keys ext mode draws (Suc n) keys st)"

text \<open>The random values of one pass of \<open>while True\<close>.\<close>

record pass_draws =
  key_order :: "nat list"
  key_random :: "nat \<Rightarrow> key_draws"

text \<open>
  \<open>flow\<close> never returns; the first argument after the draws bounds the number of passes
  of \<open>while True\<close> that are run, and the batches of these passes are in \<open>yielded\<close>.
\<close>

fun flow ::
  "collaborators \<Rightarrow> string \<Rightarrow> (nat \<Rightarrow> pass_draws) \<Rightarrow> nat \<Rightarrow> nat \<Rightarrow> flow_state
     \<Rightarrow> error + flow_state" where
  "flow ext mode draws 0 n st = Inr st"
| "flow ext mode draws (Suc passes) n st =
    (case mangage_keys (generator st) (key_order (draws n)) mode of
       Inl e \<Rightarrow> Inl e
     | Inr (self, keys) \<Rightarrow>
        (case flow_keys ext mode (key_random (draws n)) 0 keys
                (st\<lparr>generator := self, inputs := [], targets := []\<rparr>) of
           Inl e \<Rightarrow> Inl e
         | Inr st \<Rightarrow> flow ext mode draws passes (Suc n) st))"

subsection \<open>Vocabulary for the statements about the generator\<close>

text \<open>
  The boxes of an array after the flips of one call of \<open>transform\<close>: each flip that
  fires remaps its two columns.
\<close>

definition flipped_boxes ::
  "image_generator \<Rightarrow> transform_draws \<Rightarrow> ground_truth list \<Rightarrow> ground_truth list" where
  "flipped_boxes self draws boxes =
    (let boxes = (if horizontal_flip_probability self > 0
                     \<and> horizontal_draw draws < horizontal_flip_probability self
                  then map flip_columns_0_2 boxes else boxes);
         boxes = (if vertical_flip_probability self > 0
                     \<and> vertical_draw draws < vertical_flip_probability self
                  then map flip_columns_1_3 boxes else boxes)
     in boxes)"

text \<open>
  The absolute pixel coordinates of a normalised box in an image of the given height and
  width, as the specification words them: \<open>x\<close> times the width, \<open>y\<close> times the height.
\<close>

definition absolute_box_coordinates :: "box \<Rightarrow> nat \<times> nat \<Rightarrow> npfloat list" where
  "absolute_box_coordinates b original_image_size =
    (case original_image_size of (original_image_height, original_image_width) \<Rightarrow>
       [Some (x_min b * real original_image_width), Some (y_min b * real original_image_height),
        Some (x_max b * real original_image_width), Some (y_max b * real original_image_height)])"

subsection \<open>Vocabulary for the statements about rows and passes\<close>

text \<open>Whether \<open>_assign_boxes_to_object\<close> selects prior \<open>i\<close> for a box.\<close>

definition selects :: "prior_box_manager \<Rightarrow> box \<Rightarrow> nat \<Rightarrow> bool" where
  "selects self ground_truth_box i =
     (case assign_mask self ground_truth_box of Inl e \<Rightarrow> False | Inr selected \<Rightarrow> selected ! i)"

text \<open>
  Box \<open>k\<close> wins prior \<open>i\<close>: it selected the prior, its intersection over union there
  is positive, no other box that selected the prior has a higher one, and every earlier
  box that selected it has a lower one.
\<close>

definition wins_prior :: "prior_box_manager \<Rightarrow> ground_truth list \<Rightarrow> nat \<Rightarrow> nat \<Rightarrow> bool" where
  "wins_prior self gts i k =
     (selects self (gt_box (gts ! k)) i \<and>
      (case iou_at self gts i k of
         None \<Rightarrow> False
       | Some v \<Rightarrow> 0 < v \<and>
           (\<forall>j < length gts.
              j \<noteq> k \<and> selects self (gt_box (gts ! j)) i \<longrightarrow>
              (case iou_at self gts i j of
                 None \<Rightarrow> False
               | Some u \<Rightarrow> u \<le> v \<and> (j < k \<longrightarrow> u < v)))))"

text \<open>
  Box \<open>k\<close> loses prior \<open>i\<close>: it did not select the prior, or another box that
  selected it has a higher intersection over union there, or an earlier such box an equal
  one.
\<close>

definition loses_prior :: "prior_box_manager \<Rightarrow> ground_truth list \<Rightarrow> nat \<Rightarrow> nat \<Rightarrow> bool" where
  "loses_prior self gts i k =
     (\<not> selects self (gt_box (gts ! k)) i \<or>
      (\<exists>j < length gts.
         j \<noteq> k \<and> selects self (gt_box (gts ! j)) i \<and>
         (case iou_at self gts i k of
            None \<Rightarrow> False
          | Some v \<Rightarrow>
             (case iou_at self gts i j of
                None \<Rightarrow> False
              | Some u \<Rightarrow> v < u \<or> (j < k \<and> u = v)))))"

text \<open>
  The heap that the flips of one key, of the keys of one pass and of several passes of
  \<open>while True\<close> leave behind: every flip that fires is applied to the array of its key,
  one after the other, and nothing else changes an array.
\<close>

definition flips_of_key :: "image_generator \<Rightarrow> key_draws \<Rightarrow> string \<Rightarrow> heap \<Rightarrow> heap" where
  "flips_of_key self draws key heap =
     (case ground_truth_data self key of
        None \<Rightarrow> heap
      | Some box_data \<Rightarrow>
          heap(box_data := flipped_boxes self (transform_random draws) (heap box_data)))"

fun flips_of_keys ::
  "image_generator \<Rightarrow> (nat \<Rightarrow> key_draws) \<Rightarrow> nat \<Rightarrow> string list \<Rightarrow> heap \<Rightarrow> heap" where
  "flips_of_keys self draws n [] heap = heap"
| "flips_of_keys self draws n (key # keys) heap =
     flips_of_keys self draws (Suc n) keys (flips_of_key self (draws n) key heap)"

fun flips_of_passes ::
  "image_generator \<Rightarrow> string \<Rightarrow> (nat \<Rightarrow> pass_draws) \<Rightarrow> nat \<Rightarrow> nat \<Rightarrow> heap \<Rightarrow> heap" where
  "flips_of_passes self mode draws 0 n heap = heap"
| "flips_of_passes self mode draws (Suc passes) n heap =
     (case mangage_keys self (key_order (draws n)) mode of
        Inl e \<Rightarrow> heap
      | Inr (self, keys) \<Rightarrow>
          flips_of_passes self mode draws passes (Suc n)
            (flips_of_keys self (key_random (draws n)) 0 keys heap))"

section \<open>Facts about the intersection over union\<close>

lemma iou_unfold:
  "intersection_over_union a b =
     np_divide (intersection_area a b) (box_area a + box_area b - intersection_area a b)"
  by (simp add: intersection_over_union_def Let_def intersection_area_def
      intersected_width_def intersected_height_def box_area_def box_width_def box_height_def)

lemma intersected_width_nonneg: "0 \<le> intersected_width a b"
  by (simp add: intersected_width_def)

lemma intersected_height_nonneg: "0 \<le> intersected_height a b"
  by (simp add: intersected_height_def)

lemma intersection_area_nonneg: "0 \<le> intersection_area a b"
  by (simp add: intersection_area_def intersected_width_nonneg intersected_height_nonneg)

lemma intersection_area_commute: "intersection_area a b = intersection_area b a"
  by (simp add: intersection_area_def intersected_width_def intersected_height_def
      min.commute max.commute)

lemma intersected_width_le: "intersected_width a b \<le> max (box_width a) 0"
  by (auto simp: intersected_width_def box_width_def max_def min_def)

lemma intersected_width_le2: "intersected_width a b \<le> max (box_width b) 0"
  by (auto simp: intersected_width_def box_width_def max_def min_def)

lemma intersected_height_le: "intersected_height a b \<le> max (box_height a) 0"
  by (auto simp: intersected_height_def box_height_def max_def min_def)

lemma intersected_height_le2: "intersected_height a b \<le> max (box_height b) 0"
  by (auto simp: intersected_height_def box_height_def max_def min_def)

text \<open>The intersection is empty unless both boxes are valid.\<close>

lemma intersection_area_zero_left:
  assumes "\<not> valid_box a"
  shows "intersection_area a b = 0"
proof -
  from assms have "box_width a \<le> 0 \<or> box_height a \<le> 0"
    by (auto simp: valid_box_def box_width_def box_height_def)
  then have "intersected_width a b \<le> 0 \<or> intersected_height a b \<le> 0"
    using intersected_width_le [of a b] intersected_height_le [of a b] by auto
  then have "intersected_width a b = 0 \<or> intersected_height a b = 0"
    using intersected_width_nonneg [of a b] intersected_height_nonneg [of a b] by auto
  then show ?thesis by (auto simp: intersection_area_def)
qed

lemma intersection_area_zero_right:
  "\<not> valid_box b \<Longrightarrow> intersection_area a b = 0"
  using intersection_area_zero_left [of b a] by (simp add: intersection_area_commute)

lemma intersection_area_le_left:
  assumes "valid_box a"
  shows "intersection_area a b \<le> box_area a"
proof -
  from assms have w: "0 < box_width a" and h: "0 < box_height a"
    by (auto simp: valid_box_def box_width_def box_height_def)
  have "intersected_width a b \<le> box_width a"
    using intersected_width_le [of a b] w by simp
  moreover have "intersected_height a b \<le> box_height a"
    using intersected_height_le [of a b] h by simp
  ultimately show ?thesis
    unfolding intersection_area_def box_area_def
    using intersected_height_nonneg [of a b] w
    by (intro mult_mono) simp_all
qed

lemma intersection_area_le_right:
  "valid_box b \<Longrightarrow> intersection_area a b \<le> box_area b"
  using intersection_area_le_left [of b a] by (simp add: intersection_area_commute)

lemma valid_box_area_pos: "valid_box a \<Longrightarrow> 0 < box_area a"
  by (simp add: valid_box_def box_area_def box_width_def box_height_def)

lemma intersection_area_disjoint:
  assumes "disjoint_boxes a b"
  shows "intersection_area a b = 0"
proof -
  from assms have "intersected_width a b = 0 \<or> intersected_height a b = 0"
    by (auto simp: disjoint_boxes_def intersected_width_def intersected_height_def
        max_def min_def)
  then show ?thesis by (auto simp: intersection_area_def)
qed

lemma intersection_area_self:
  "valid_box a \<Longrightarrow> intersection_area a a = box_area a"
  by (simp add: valid_box_def intersection_area_def intersected_width_def
      intersected_height_def box_area_def box_width_def box_height_def max_def)

text \<open>With two boxes of positive area the union is positive and bounds the intersection.\<close>

lemma intersection_area_le_union:
  assumes "0 < box_area a" and "0 < box_area b"
  shows "intersection_area a b \<le> box_area a + box_area b - intersection_area a b"
    and "0 < box_area a + box_area b - intersection_area a b"
proof -
  have le: "intersection_area a b \<le> box_area a \<and> intersection_area a b \<le> box_area b"
  proof (cases "valid_box a \<and> valid_box b")
    case True
    then show ?thesis
      by (simp add: intersection_area_le_left intersection_area_le_right)
  next
    case False
    then have "intersection_area a b = 0"
      using intersection_area_zero_left intersection_area_zero_right by blast
    with assms show ?thesis by simp
  qed
  from le assms show "intersection_area a b \<le> box_area a + box_area b - intersection_area a b"
    by linarith
  from le assms show "0 < box_area a + box_area b - intersection_area a b"
    by linarith
qed

text \<open>
  C8. For two boxes of positive area the intersection over union is a finite number
  between 0 and 1; it does not change when the prior box and the ground-truth box
  exchange their roles; the intersection over union of a valid box with itself is 1;
  and it is 0 for two boxes that do not overlap.
\<close>

theorem iou_algebraic_properties:
  assumes "0 < box_area a" and "0 < box_area b"
  shows "(\<exists>v. intersection_over_union a b = Some v \<and> 0 \<le> v \<and> v \<le> 1)
       \<and> intersection_over_union a b = intersection_over_union b a
       \<and> (valid_box a \<longrightarrow> intersection_over_union a a = Some 1)
       \<and> (disjoint_boxes a b \<longrightarrow> intersection_over_union a b = Some 0)"
proof -
  let ?i = "intersection_area a b"
  let ?u = "box_area a + box_area b - ?i"
  have u: "0 < ?u" and iu: "?i \<le> ?u"
    using intersection_area_le_union [OF assms] by simp_all
  have "0 \<le> ?i / ?u" using intersection_area_nonneg [of a b] u by simp
  moreover have "?i / ?u \<le> 1" using iu u by simp
  ultimately have range: "\<exists>v. intersection_over_union a b = Some v \<and> 0 \<le> v \<and> v \<le> 1"
    using u by (simp add: iou_unfold np_divide_def)
  have sym: "intersection_over_union a b = intersection_over_union b a"
    by (simp add: iou_unfold intersection_area_commute add.commute)
  have self: "intersection_over_union a a = Some 1" if "valid_box a"
    using that assms(1) by (simp add: iou_unfold np_divide_def intersection_area_self)
  have apart: "intersection_over_union a b = Some 0" if "disjoint_boxes a b"
    using that u by (simp add: iou_unfold np_divide_def intersection_area_disjoint)
  from range sym self apart show ?thesis by blast
qed

theorem iou_algebraic_properties_witness:
  "0 < box_area (Box 0 0 1 1) \<and> 0 < box_area (Box 2 0 3 1)
   \<and> valid_box (Box 0 0 1 1) \<and> disjoint_boxes (Box 0 0 1 1) (Box 2 0 3 1)
   \<and> intersection_over_union (Box 0 0 1 1) (Box 2 0 3 1)
       = intersection_over_union (Box 2 0 3 1) (Box 0 0 1 1)
   \<and> intersection_over_union (Box 0 0 1 1) (Box 0 0 1 1) = Some 1
   \<and> intersection_over_union (Box 0 0 1 1) (Box 2 0 3 1) = Some 0"
proof -
  have h: "0 < box_area (Box 0 0 1 1)" "0 < box_area (Box 2 0 3 1)"
    "valid_box (Box 0 0 1 1)" "disjoint_boxes (Box 0 0 1 1) (Box 2 0 3 1)"
    by (simp_all add: box_area_def box_width_def box_height_def valid_box_def
        disjoint_boxes_def)
  from iou_algebraic_properties [OF h(1) h(2)] h show ?thesis by blast
qed

text \<open>
  C2. The widths and heights of the intersection are clamped to \<open>\<ge> 0\<close>, and for a
  degenerate ground-truth box (\<open>max \<le> min\<close> in one direction) the intersection with
  every prior is empty. The quotient is then 0 whenever the union, here the sum of the two
  areas as the code computes them, is not 0; when that sum is 0 the code divides 0 by 0
  and stores \<open>nan\<close>, without raising.
\<close>

theorem iou_degenerate_ground_truth:
  assumes "degenerate_box g"
  shows "0 \<le> intersected_width p g \<and> 0 \<le> intersected_height p g
       \<and> intersection_over_union p g
           = (if box_area p + box_area g = 0 then None else Some 0)"
proof -
  from assms have "\<not> valid_box g"
    by (auto simp: degenerate_box_def valid_box_def)
  then have "intersection_area p g = 0"
    by (rule intersection_area_zero_right)
  then show ?thesis
    by (simp add: iou_unfold np_divide_def intersected_width_nonneg
        intersected_height_nonneg)
qed

theorem iou_degenerate_ground_truth_witness:
  "degenerate_box (Box (1/2) (1/2) (1/2) (1/2))
   \<and> intersection_over_union (Box 0 0 1 1) (Box (1/2) (1/2) (1/2) (1/2)) = Some 0"
proof -
  have h: "degenerate_box (Box (1/2) (1/2) (1/2) (1/2))"
    by (simp add: degenerate_box_def)
  from iou_degenerate_ground_truth [OF h, of "Box 0 0 1 1"] h show ?thesis
    by (simp add: box_area_def box_width_def box_height_def)
qed

text \<open>
  The claim fails for the unit prior and the ground-truth box \<open>[1, 0, 0, 1]\<close>, whose
  \<open>x_max\<close> is below its \<open>x_min\<close>: the code computes the area \<open>-1\<close> for it, the
  union is 0 and the quotient is \<open>0 / 0\<close>. It fails as well for a prior and a
  ground-truth box that are the same point.
\<close>

theorem iou_degenerate_counterexample:
  "degenerate_box (Box 1 0 0 1)
   \<and> intersection_over_union (Box 0 0 1 1) (Box 1 0 0 1) = None
   \<and> intersection_over_union (Box 0 0 1 1) (Box 1 0 0 1) \<noteq> Some 0
   \<and> degenerate_box (Box (1/2) (1/2) (1/2) (1/2))
   \<and> intersection_over_union (Box (1/2) (1/2) (1/2) (1/2)) (Box (1/2) (1/2) (1/2) (1/2))
       = None"
  by (simp add: degenerate_box_def intersection_over_union_def np_divide_def)

section \<open>Encoding and decoding are inverse\<close>

lemma map2_map_same: "map2 f xs (map h xs) = map (\<lambda>x. f x (h x)) xs"
  by (induction xs) simp_all

lemma encode_row_finite:
  assumes "valid_box d" and "valid_box g" and "nonzero_scale_factors (box_scale_factors self)"
  shows "encode_row self g d = map Some (finite_deltas self g d)"
  using assms
  by (simp add: encode_row_def Let_def np_divide_def np_divide_by_def np_log_def
      valid_box_def nonzero_scale_factors_def not_le finite_deltas_def)

lemma decode_finite_deltas:
  assumes d: "valid_box d" and g: "valid_box g" and n: "normalized_box g"
    and s: "nonzero_scale_factors (box_scale_factors self)"
  shows "decode_row self d (finite_deltas self g d) = box_row g"
proof -
  let ?s = "box_scale_factors self"
  let ?dw = "x_max d - x_min d" and ?dh = "y_max d - y_min d"
  let ?gw = "x_max g - x_min g" and ?gh = "y_max g - y_min g"
  from d have dw: "0 < ?dw" and dh: "0 < ?dh" by (simp_all add: valid_box_def)
  from g have gw: "0 < ?gw" and gh: "0 < ?gh" by (simp_all add: valid_box_def)
  from s have sx: "scale_center_x ?s \<noteq> 0" and sy: "scale_center_y ?s \<noteq> 0"
    and sw: "scale_width ?s \<noteq> 0" and sh: "scale_height ?s \<noteq> 0"
    by (simp_all add: nonzero_scale_factors_def)
  have w: "exp (ln (?gw / ?dw) / scale_width ?s * scale_width ?s) * ?dw = ?gw"
    using sw dw gw by simp
  have h: "exp (ln (?gh / ?dh) / scale_height ?s * scale_height ?s) * ?dh = ?gh"
    using sh dh gh by simp
  have cx: "(0.5 * (x_min g + x_max g) - 0.5 * (x_min d + x_max d)) / (?dw * scale_center_x ?s)
              * ?dw * scale_center_x ?s + 0.5 * (x_max d + x_min d) = 0.5 * (x_min g + x_max g)"
    using sx dw by (simp add: field_simps)
  have cy: "(0.5 * (y_min g + y_max g) - 0.5 * (y_min d + y_max d)) / (?dh * scale_center_y ?s)
              * ?dh * scale_center_y ?s + 0.5 * (y_max d + y_min d) = 0.5 * (y_min g + y_max g)"
    using sy dh by (simp add: field_simps)
  have "decode_row self d (finite_deltas self g d) = map (\<lambda>v. np_clip v 0 1) (box_row g)"
    unfolding decode_row_def Let_def box_row_def finite_deltas_def
    by (simp only: nth_Cons_0 nth_Cons_Suc One_nat_def numeral_2_eq_2 numeral_3_eq_3 w h cx cy)
       (simp add: field_simps)
  also have "\<dots> = box_row g"
    using n g by (simp add: box_row_def np_clip_def normalized_box_def valid_box_def)
  finally show ?thesis .
qed

text \<open>
  C3. For a manager whose four scale factors are not 0, whose prior boxes all have
  positive width and height, and for a valid ground-truth box with coordinates in
  \<open>[0, 1]\<close>: encoding the box against every prior gives finite deltas, and
  \<open>decode_boxes\<close> of these deltas, under the same scale factors, returns the
  coordinates of the box in every row.
\<close>

theorem decode_encode_round_trip:
  assumes "\<forall>d \<in> set (prior_boxes self). valid_box d"
    and "valid_box g" and "normalized_box g"
    and "nonzero_scale_factors (box_scale_factors self)"
  shows "\<exists>deltas. encode_box self (prior_boxes self) g = map (map Some) deltas
           \<and> decode_boxes self deltas = Inr (map (\<lambda>d. box_row g) (prior_boxes self))"
proof -
  let ?deltas = "map (finite_deltas self g) (prior_boxes self)"
  have enc: "encode_box self (prior_boxes self) g = map (map Some) ?deltas"
    using assms by (simp add: encode_box_def encode_row_finite)
  have wide: "\<not> list_ex (\<lambda>row. length row < 4) ?deltas"
    by (simp add: list_ex_iff finite_deltas_def)
  have "map2 (\<lambda>prior row. decode_row self prior row @ drop 4 row) (prior_boxes self) ?deltas
        = map (\<lambda>d. decode_row self d (finite_deltas self g d) @ drop 4 (finite_deltas self g d))
            (prior_boxes self)"
    by (rule map2_map_same)
  also have "\<dots> = map (\<lambda>d. box_row g) (prior_boxes self)"
    using assms by (simp add: decode_finite_deltas) (simp add: finite_deltas_def)
  finally have "decode_boxes self ?deltas = Inr (map (\<lambda>d. box_row g) (prior_boxes self))"
    using wide by (simp add: decode_boxes_def Let_def)
  with enc show ?thesis by blast
qed

theorem decode_encode_round_trip_witness:
  "decode_boxes \<lparr>prior_boxes = [Box 0 0 1 1], background_id = 0, overlap_threshold = 1/2,
       num_classes = 2, box_scale_factors = Scale_factors 1 1 1 1\<rparr> [[0, 0, 0, 0]]
     = Inr [[0, 0, 1, 1]]"
proof -
  let ?m = "\<lparr>prior_boxes = [Box 0 0 1 1], background_id = 0, overlap_threshold = 1/2,
       num_classes = 2, box_scale_factors = Scale_factors 1 1 1 1\<rparr>"
  have "\<forall>d \<in> set (prior_boxes ?m). valid_box d" "valid_box (Box 0 0 1 1)"
    "normalized_box (Box 0 0 1 1)" "nonzero_scale_factors (box_scale_factors ?m)"
    by (simp_all add: valid_box_def normalized_box_def nonzero_scale_factors_def)
  from decode_encode_round_trip [OF this]
  obtain deltas where "encode_box ?m (prior_boxes ?m) (Box 0 0 1 1) = map (map Some) deltas"
    and dec: "decode_boxes ?m deltas = Inr (map (\<lambda>d. box_row (Box 0 0 1 1)) (prior_boxes ?m))"
    by blast
  then have "map (map Some) deltas = [[Some 0, Some 0, Some 0, Some 0]]"
    by (simp add: encode_box_def encode_row_def np_divide_def np_divide_by_def np_log_def)
  then have "deltas = [[0, 0, 0, 0]]"
    by (auto simp: map_eq_Cons_conv)
  with dec show ?thesis by (simp add: box_row_def)
qed

section \<open>Facts about the assignment\<close>

lemma beats_irrefl: "\<not> beats x x"
  by (simp add: beats_def split: option.splits)

lemma beats_asym: "beats c x \<Longrightarrow> \<not> beats x c"
  by (auto simp: beats_def split: option.splits)

lemma beats_cotrans: "\<not> beats m x \<Longrightarrow> \<not> beats e m \<Longrightarrow> \<not> beats e x"
  by (auto simp: beats_def split: option.splits)

lemma np_argmax_less: "xs \<noteq> [] \<Longrightarrow> np_argmax xs < length xs"
  by (induction xs rule: np_argmax.induct) (auto simp: Let_def)

lemma np_amax_argmax: "xs \<noteq> [] \<Longrightarrow> np_amax xs = xs ! np_argmax xs"
  by (induction xs rule: np_argmax.induct) (auto simp: Let_def)

lemma np_argmax_greatest:
  "k < length xs \<Longrightarrow> \<not> beats (xs ! k) (xs ! np_argmax xs)"
proof (induction xs arbitrary: k rule: np_argmax.induct)
  case 1
  then show ?case by simp
next
  case (2 x)
  then show ?case by (simp add: beats_irrefl)
next
  case (3 x y ys)
  let ?j = "np_argmax (y # ys)"
  show ?case
  proof (cases "beats ((y # ys) ! ?j) x")
    case True
    then show ?thesis
      using 3 beats_asym [OF True] by (cases k) (simp_all add: Let_def)
  next
    case False
    show ?thesis
    proof (cases k)
      case 0
      with False show ?thesis by (simp add: Let_def beats_irrefl)
    next
      case (Suc k')
      with 3 have "\<not> beats ((y # ys) ! k') ((y # ys) ! ?j)" by simp
      with False have "\<not> beats ((y # ys) ! k') x" by (rule beats_cotrans)
      with False Suc show ?thesis by (simp add: Let_def)
    qed
  qed
qed

lemma np_argmax_first:
  "k < np_argmax xs \<Longrightarrow> beats (xs ! np_argmax xs) (xs ! k)"
proof (induction xs arbitrary: k rule: np_argmax.induct)
  case 1
  then show ?case by simp
next
  case (2 x)
  then show ?case by simp
next
  case (3 x y ys)
  let ?j = "np_argmax (y # ys)"
  show ?case
  proof (cases "beats ((y # ys) ! ?j) x")
    case True
    then show ?thesis
      using 3 by (cases k) (simp_all add: Let_def)
  next
    case False
    with 3 show ?thesis by (simp add: Let_def)
  qed
qed

lemma length_encode_row: "length (encode_row self g d) = 4"
  by (simp add: encode_row_def Let_def)

lemma length_object_mask: "length (object_mask self g) = num_priors self"
  by (simp add: object_mask_def Let_def calculate_intersection_over_unions_def num_priors_def)

lemma assign_mask_Inr:
  "prior_boxes self \<noteq> [] \<Longrightarrow> assign_mask self g = Inr (object_mask self g)"
  by (simp add: assign_mask_def object_mask_def Let_def calculate_intersection_over_unions_def)

lemma assign_mask_no_priors: "prior_boxes self = [] \<Longrightarrow> assign_mask self g = Inl ValueError"
  by (simp add: assign_mask_def Let_def calculate_intersection_over_unions_def)

lemma assign_boxes_to_object_Inr:
  "prior_boxes self \<noteq> [] \<Longrightarrow> assign_boxes_to_object self g = Inr (object_rows self g)"
  by (simp add: assign_boxes_to_object_def object_rows_def assign_mask_Inr Let_def)

lemma length_object_rows: "length (object_rows self g) = num_priors self"
  by (simp add: object_rows_def length_object_mask calculate_intersection_over_unions_def
      num_priors_def)

lemma object_rows_nth:
  assumes "i < num_priors self"
  shows "object_rows self g ! i =
    (if object_mask self g ! i
     then encode_row self g (prior_boxes self ! i)
            @ [intersection_over_union (prior_boxes self ! i) g]
     else replicate 5 (Some 0))"
proof -
  have "length (object_mask self g) = length (prior_boxes self)"
    using length_object_mask [of self g] by (simp add: num_priors_def)
  with assms show ?thesis
    by (simp add: object_rows_def calculate_intersection_over_unions_def num_priors_def)
qed

lemma last_object_row:
  assumes "i < num_priors self"
  shows "last (object_rows self (gt_box g) ! i) = stored_iou self g i"
  using assms by (simp add: object_rows_nth stored_iou_def)

lemma take_object_row:
  assumes "i < num_priors self" and "object_mask self g ! i"
  shows "take 4 (object_rows self g ! i) = encode_row self g (prior_boxes self ! i)"
  using assms by (simp add: object_rows_nth length_encode_row)

lemma collect_Inr: "collect (map (\<lambda>g. Inr (f g)) gs) = Inr (map f gs)"
  by (induction gs) simp_all

lemma iou_column_rows:
  assumes "i < num_priors self"
  shows "iou_column (map (\<lambda>g. object_rows self (gt_box g)) gts) i
           = map (\<lambda>g. stored_iou self g i) gts"
  using assms by (simp add: iou_column_def last_object_row)

lemma background_row_class:
  assumes "background_is_class self"
  shows "background_row self = Inr (unassigned_row self)"
proof -
  let ?z = "Some 0 :: npfloat"
  let ?c = "num_classes self"
  from assms obtain b where b: "background_id self = int b" and bc: "b < ?c"
    unfolding background_is_class_def by (metis nonneg_int_cases of_nat_less_iff)
  have "replicate (4 + ?c + 8) ?z = replicate 4 ?z @ replicate ?c ?z @ replicate 8 ?z"
    by (simp only: replicate_add append_assoc)
  then have "(replicate (4 + ?c + 8) ?z)[4 + b := Some 1]
          = (replicate 4 ?z @ replicate ?c ?z @ replicate 8 ?z)[4 + b := Some 1]"
    by (rule arg_cong)
  also have "\<dots> = replicate 4 ?z @ (replicate ?c ?z)[b := Some 1] @ replicate 8 ?z"
    using bc by (simp add: list_update_append)
  finally show ?thesis
    using b bc by (simp add: background_row_def unassigned_row_def Let_def nat_add_distrib)
qed

lemma assign_boxes_rows:
  assumes "background_row self = Inr row0" and "prior_boxes self \<noteq> []"
    and "gts \<noteq> []" and "list_all (class_columns_fit self) gts"
  shows "assign_boxes self gts =
    Inr (map (\<lambda>i. assign_row self gts (map (\<lambda>g. object_rows self (gt_box g)) gts) i row0)
           [0..<num_priors self])"
proof -
  have "collect (map (\<lambda>g. assign_boxes_to_object self (gt_box g)) gts)
          = Inr (map (\<lambda>g. object_rows self (gt_box g)) gts)"
    using assms(2) by (simp add: assign_boxes_to_object_Inr collect_Inr)
  then show ?thesis
    using assms by (simp add: assign_boxes_def Let_def)
qed

lemma assign_boxes_empty:
  assumes "background_row self = Inr row0"
  shows "assign_boxes self [] = Inr (replicate (num_priors self) row0)"
  using assms by (simp add: assign_boxes_def Let_def)

lemma assign_row_unassigned:
  "\<not> np_greater (np_amax (iou_column enc i)) 0 \<Longrightarrow> assign_row self gts enc i row = row"
  by (simp add: assign_row_def Let_def)

lemma class_columns_exact:
  "length (gt_classes g) = num_classes self
     \<Longrightarrow> class_columns self g = map Some (drop 1 (gt_classes g))"
  by (simp add: class_columns_def Let_def)

lemma class_columns_fit_exact:
  "length (gt_classes g) = num_classes self \<Longrightarrow> class_columns_fit self g"
  by (simp add: class_columns_fit_def Let_def)

lemma assign_row_assigned:
  assumes best: "np_greater (np_amax (iou_column enc i)) 0"
    and w: "np_argmax (iou_column enc i) = w"
    and E: "take 4 (enc ! w ! i) = E" and lE: "length E = 4"
    and cls: "length (gt_classes (gts ! w)) = num_classes self"
    and bg: "background_is_class self"
  shows "assign_row self gts enc i (unassigned_row self)
     = E @ [Some 0] @ map Some (drop 1 (gt_classes (gts ! w))) @ [Some 1]
         @ replicate 7 (Some 0)"
proof -
  let ?z = "Some 0 :: npfloat"
  let ?B = "(replicate (num_classes self) ?z)[nat (background_id self) := Some 1]"
  let ?cl = "map Some (drop 1 (gt_classes (gts ! w))) :: npfloat list"
  from bg have c: "0 < num_classes self"
    by (auto simp: background_is_class_def)
  then obtain b0 B' where B: "?B = b0 # B'"
    by (cases ?B) auto
  have lB: "length B' = num_classes self - 1"
    using arg_cong [OF B, of length] by simp
  have lcl: "length ?cl = num_classes self - 1"
    using cls by simp
  have r8: "replicate 8 ?z = ?z # replicate 7 ?z"
    by (simp add: eval_nat_numeral)
  define row1 where "row1 = take 4 (enc ! w ! i) @ drop 4 (unassigned_row self)"
  have row1: "row1 = E @ b0 # B' @ replicate 8 ?z"
    unfolding row1_def E unassigned_row_def B by simp
  define row2 where "row2 = row1[4 := ?z]"
  have row2: "row2 = E @ ?z # B' @ replicate 8 ?z"
    unfolding row2_def row1 using lE by (simp add: list_update_append)
  define row3 where "row3 = take 5 row2 @ ?cl @ drop (5 + length ?cl) row2"
  have t5: "take 5 row2 = E @ [?z]"
    unfolding row2 using lE by simp
  have d5: "drop (5 + length ?cl) row2 = replicate 8 ?z"
    unfolding row2 using lE lB lcl by simp
  have row3: "row3 = E @ ?z # ?cl @ replicate 8 ?z"
    unfolding row3_def t5 d5 by simp
  have gen: "(P @ Q)[length P := v] = P @ Q[0 := v]" for P Q :: "npfloat list" and v
    by (simp add: list_update_append)
  have row3': "row3 = (E @ ?z # ?cl) @ replicate 8 ?z"
    unfolding row3 by simp
  have l3: "length row3 - 8 = length (E @ ?z # ?cl)"
    unfolding row3 by simp
  have "row3[length row3 - 8 := Some 1] = (E @ ?z # ?cl) @ (replicate 8 ?z)[0 := Some 1]"
    unfolding l3 unfolding row3' by (rule gen)
  then have row4: "row3[length row3 - 8 := Some 1]
      = E @ [?z] @ ?cl @ [Some 1] @ replicate 7 ?z"
    by (simp add: r8)
  have "assign_row self gts enc i (unassigned_row self) = row3[length row3 - 8 := Some 1]"
    unfolding assign_row_def Let_def w class_columns_exact [OF cls] row3_def row2_def row1_def
    using best by (simp only: if_True)
  with row4 show ?thesis by simp
qed

lemma list_ex_nth: "list_ex (\<lambda>m. m) bs \<longleftrightarrow> (\<exists>j < length bs. bs ! j)"
  unfolding list_ex_iff by (metis in_set_conv_nth)

lemma object_mask_nth:
  assumes "i < num_priors self"
  shows "object_mask self g ! i =
    (np_greater (intersection_over_union (prior_boxes self ! i) g) (overlap_threshold self)
     \<or> (\<not> (\<exists>j < num_priors self.
               np_greater (intersection_over_union (prior_boxes self ! j) g)
                 (overlap_threshold self))
          \<and> i = np_argmax (calculate_intersection_over_unions self g)))"
proof -
  let ?above = "map (\<lambda>iou. np_greater iou (overlap_threshold self))
                  (calculate_intersection_over_unions self g)"
  have len: "length ?above = num_priors self"
    by (simp add: calculate_intersection_over_unions_def num_priors_def)
  have nth: "?above ! j = np_greater (intersection_over_union (prior_boxes self ! j) g)
                            (overlap_threshold self)" if "j < num_priors self" for j
    using that by (simp add: calculate_intersection_over_unions_def num_priors_def)
  have ex: "list_ex (\<lambda>m. m) ?above \<longleftrightarrow>
      (\<exists>j < num_priors self.
         np_greater (intersection_over_union (prior_boxes self ! j) g) (overlap_threshold self))"
  proof -
    have "list_ex (\<lambda>m. m) ?above \<longleftrightarrow> (\<exists>j < length ?above. ?above ! j)"
      by (rule list_ex_nth)
    then show ?thesis using nth len by auto
  qed
  show ?thesis
  proof (cases "list_ex (\<lambda>m. m) ?above")
    case True
    then have "object_mask self g = ?above"
      by (simp add: object_mask_def Let_def)
    with True ex nth [OF assms] show ?thesis by auto
  next
    case False
    then have "object_mask self g
        = ?above[np_argmax (calculate_intersection_over_unions self g) := True]"
      by (simp add: object_mask_def Let_def)
    with False ex nth [OF assms] len assms show ?thesis
      by (auto simp: nth_list_update)
  qed
qed

lemma np_argmax_unique:
  assumes "k < length xs" and "\<forall>j < length xs. j \<noteq> k \<longrightarrow> beats (xs ! k) (xs ! j)"
  shows "np_argmax xs = k"
proof (rule ccontr)
  assume ne: "np_argmax xs \<noteq> k"
  from assms(1) have "xs \<noteq> []" by auto
  then have "np_argmax xs < length xs" by (rule np_argmax_less)
  with assms(2) ne have "beats (xs ! k) (xs ! np_argmax xs)" by blast
  with np_argmax_greatest [OF assms(1)] show False by blast
qed

lemma assign_boxes_row_of_winner:
  assumes bg: "background_is_class self"
    and shape: "one_column_per_class self gts"
    and i: "i < num_priors self"
    and w: "w < length gts"
    and arg: "np_argmax (map (\<lambda>g. stored_iou self g i) gts) = w"
    and v: "stored_iou self (gts ! w) i = Some v" "0 < v"
  shows "\<exists>A. assign_boxes self gts = Inr A \<and> length A = num_priors self
           \<and> A ! i = assigned_row self (gts ! w) i"
proof -
  let ?enc = "map (\<lambda>g. object_rows self (gt_box g)) gts"
  let ?col = "map (\<lambda>g. stored_iou self g i) gts"
  from i have priors: "prior_boxes self \<noteq> []" by (auto simp: num_priors_def)
  from w have gts: "gts \<noteq> []" by auto
  from shape have cls: "length (gt_classes g) = num_classes self" if "g \<in> set gts" for g
    using that by (simp add: one_column_per_class_def list_all_iff)
  then have fit: "list_all (class_columns_fit self) gts"
    by (simp add: list_all_iff class_columns_fit_exact)
  have col: "iou_column ?enc i = ?col"
    using i by (rule iou_column_rows)
  have "np_amax ?col = ?col ! w"
    using gts arg by (simp add: np_amax_argmax)
  with v w have best: "np_greater (np_amax (iou_column ?enc i)) 0"
    by (simp add: col np_greater_def)
  from v have m: "object_mask self (gt_box (gts ! w)) ! i"
    by (auto simp: stored_iou_def split: if_splits)
  have E: "take 4 (?enc ! w ! i) = encode_row self (gt_box (gts ! w)) (prior_boxes self ! i)"
    using w i m by (simp add: take_object_row)
  have row: "assign_row self gts ?enc i (unassigned_row self) = assigned_row self (gts ! w) i"
    unfolding assigned_row_def
    by (rule assign_row_assigned [OF best _ E length_encode_row _ bg])
       (simp_all add: col arg cls w)
  have "assign_boxes self gts =
      Inr (map (\<lambda>i. assign_row self gts ?enc i (unassigned_row self)) [0..<num_priors self])"
    by (rule assign_boxes_rows [OF background_row_class [OF bg] priors gts fit])
  with row i show ?thesis by simp
qed

lemma unassigned_row_nth:
  assumes "background_is_class self" and "j < 4 + num_classes self + 8"
  shows "unassigned_row self ! j
           = (if j = 4 + nat (background_id self) then Some 1 else Some 0)"
proof -
  from assms(1) have b: "nat (background_id self) < num_classes self"
    by (auto simp: background_is_class_def)
  consider "j < 4" | "4 \<le> j" "j < 4 + num_classes self" | "4 + num_classes self \<le> j"
    by linarith
  then show ?thesis
  proof cases
    case 1
    then show ?thesis by (simp add: unassigned_row_def nth_append)
  next
    case 2
    with b show ?thesis
      by (auto simp: unassigned_row_def nth_append nth_list_update)
  next
    case 3
    with b assms(2) show ?thesis
      by (auto simp: unassigned_row_def nth_append)
  qed
qed

lemma length_unassigned_row: "length (unassigned_row self) = 4 + num_classes self + 8"
  by (simp add: unassigned_row_def)

text \<open>
  C6. When the background class is one of the classes, \<open>assign_boxes\<close> on an empty
  ground-truth array returns one row per prior, each of \<open>4 + num_classes + 8\<close> entries:
  1 in the column of the background class, and 0 in the four columns of the encoded
  box, in the other class columns and in the last eight columns.
\<close>

theorem background_default:
  assumes "background_is_class self"
  shows "\<exists>A. assign_boxes self [] = Inr A \<and> length A = num_priors self
    \<and> (\<forall>row \<in> set A. length row = 4 + num_classes self + 8
          \<and> (\<forall>j < 4 + num_classes self + 8.
                row ! j = (if j = 4 + nat (background_id self) then Some 1 else Some 0)))"
proof -
  have "assign_boxes self [] = Inr (replicate (num_priors self) (unassigned_row self))"
    using background_row_class [OF assms] by (rule assign_boxes_empty)
  then show ?thesis
    using unassigned_row_nth [OF assms] by (simp add: length_unassigned_row)
qed

theorem background_default_witness:
  "assign_boxes \<lparr>prior_boxes = [Box 0 0 1 1, Box 0 0 (1/2) (1/2)], background_id = 0,
       overlap_threshold = 1/2, num_classes = 2,
       box_scale_factors = Scale_factors 1 1 1 1\<rparr> []
   = Inr (replicate 2 (replicate 4 (Some 0) @ [Some 1, Some 0] @ replicate 8 (Some 0)))"
proof -
  let ?m = "\<lparr>prior_boxes = [Box 0 0 1 1, Box 0 0 (1/2) (1/2)], background_id = 0,
       overlap_threshold = 1/2, num_classes = 2,
       box_scale_factors = Scale_factors 1 1 1 1\<rparr>"
  have bg: "background_is_class ?m"
    by (simp add: background_is_class_def)
  from background_default [OF bg] obtain A where A: "assign_boxes ?m [] = Inr A"
    by blast
  then show ?thesis
    by (simp add: assign_boxes_def background_row_def Let_def num_priors_def
        eval_nat_numeral)
qed

lemma beats_Some [simp]: "beats (Some c) (Some x) \<longleftrightarrow> x < c"
  by (simp add: beats_def)

lemma stored_iou_cases:
  "stored_iou self g i = intersection_over_union (prior_boxes self ! i) (gt_box g)
     \<and> object_mask self (gt_box g) ! i
   \<or> stored_iou self g i = Some 0 \<and> \<not> object_mask self (gt_box g) ! i"
  by (simp add: stored_iou_def)

lemma not_selected_below:
  assumes "i < num_priors self" and "\<not> object_mask self g ! i"
    and "intersection_over_union (prior_boxes self ! i) g = Some u"
  shows "u \<le> overlap_threshold self"
  using assms by (auto simp: object_mask_nth np_greater_def)

lemma above_selected:
  assumes "i < num_priors self"
    and "np_greater (intersection_over_union (prior_boxes self ! i) g) (overlap_threshold self)"
  shows "object_mask self g ! i"
  using assms by (simp add: object_mask_nth)

text \<open>
  C4. Let the background class be a class, the ground-truth rows have one column per
  class and the threshold be at least 0. If two different ground-truth boxes both exceed
  the threshold for prior \<open>i\<close> (and no intersection over union at this prior is
  \<open>nan\<close>), then \<open>assign_boxes\<close> returns a matrix whose row \<open>i\<close> is the assigned row of
  one ground-truth box \<open>w\<close>: its encoded box against prior \<open>i\<close>, background flag 0, its
  class columns, 1 in column \<open>-8\<close> and nothing of any other box. This \<open>w\<close> has the highest
  intersection over union with prior \<open>i\<close> of all boxes, and is the first such box.
\<close>

theorem conflict_resolution:
  assumes bg: "background_is_class self"
    and shape: "one_column_per_class self gts"
    and thr: "0 \<le> overlap_threshold self"
    and i: "i < num_priors self"
    and a: "a < length gts" and b: "b < length gts" and ab: "a \<noteq> b"
    and above_a: "np_greater (iou_at self gts i a) (overlap_threshold self)"
    and above_b: "np_greater (iou_at self gts i b) (overlap_threshold self)"
    and finite: "\<forall>k < length gts. iou_at self gts i k \<noteq> None"
  shows "\<exists>A w v. assign_boxes self gts = Inr A \<and> length A = num_priors self
      \<and> w < length gts \<and> iou_at self gts i w = Some v
      \<and> (\<forall>k < length gts. \<forall>u. iou_at self gts i k = Some u \<longrightarrow> u \<le> v)
      \<and> (\<forall>k < w. \<forall>u. iou_at self gts i k = Some u \<longrightarrow> u < v)
      \<and> A ! i = assigned_row self (gts ! w) i"
proof -
  let ?col = "map (\<lambda>g. stored_iou self g i) gts"
  define w where "w = np_argmax ?col"
  from a have ne: "?col \<noteq> []" by auto
  have w: "w < length gts"
    using np_argmax_less [OF ne] by (simp add: w_def)
  have col: "?col ! k = stored_iou self (gts ! k) i" if "k < length gts" for k
    using that by simp
  from above_a obtain ua where ua: "iou_at self gts i a = Some ua"
    and ua_thr: "overlap_threshold self < ua"
    by (auto simp: np_greater_def split: option.splits)
  have sel_a: "object_mask self (gt_box (gts ! a)) ! i"
    using above_selected [OF i] above_a by (simp add: iou_at_def)
  then have st_a: "stored_iou self (gts ! a) i = Some ua"
    using ua by (simp add: stored_iou_def iou_at_def)
  from finite w obtain uw where uw: "iou_at self gts i w = Some uw"
    by auto
  have "stored_iou self (gts ! w) i = Some uw \<or> stored_iou self (gts ! w) i = Some 0"
    using stored_iou_cases [of self "gts ! w" i] uw by (auto simp: iou_at_def)
  then obtain v where st_w: "stored_iou self (gts ! w) i = Some v"
    by blast
  have "\<not> beats (?col ! a) (?col ! w)"
    unfolding w_def using a by (intro np_argmax_greatest) simp
  then have ua_v: "ua \<le> v"
    using a w by (simp add: st_a st_w)
  with ua_thr thr have v_pos: "0 < v" by linarith
  then have sel_w: "object_mask self (gt_box (gts ! w)) ! i"
    using st_w by (auto simp: stored_iou_def split: if_splits)
  then have iou_w: "iou_at self gts i w = Some v"
    using st_w by (simp add: stored_iou_def iou_at_def)
  have upper: "u \<le> v" if "k < length gts" and "iou_at self gts i k = Some u" for k u
  proof (cases "object_mask self (gt_box (gts ! k)) ! i")
    case True
    then have "stored_iou self (gts ! k) i = Some u"
      using that by (simp add: stored_iou_def iou_at_def)
    moreover have "\<not> beats (?col ! k) (?col ! w)"
      unfolding w_def using that by (intro np_argmax_greatest) simp
    ultimately show ?thesis
      using that w by (simp add: st_w)
  next
    case False
    then have "u \<le> overlap_threshold self"
      using not_selected_below [OF i False] that by (simp add: iou_at_def)
    with ua_thr ua_v show ?thesis by linarith
  qed
  have strict: "u < v" if "k < w" and "iou_at self gts i k = Some u" for k u
  proof (cases "object_mask self (gt_box (gts ! k)) ! i")
    case True
    from that w have k: "k < length gts" by simp
    from True have "stored_iou self (gts ! k) i = Some u"
      using that by (simp add: stored_iou_def iou_at_def)
    moreover have "beats (?col ! w) (?col ! k)"
      using that unfolding w_def by (intro np_argmax_first) simp
    ultimately show ?thesis
      using k w by (simp add: st_w)
  next
    case False
    then have "u \<le> overlap_threshold self"
      using not_selected_below [OF i False] that by (simp add: iou_at_def)
    with ua_thr ua_v show ?thesis by linarith
  qed
  from assign_boxes_row_of_winner [OF bg shape i w w_def [symmetric] st_w v_pos]
  obtain A where "assign_boxes self gts = Inr A" and "length A = num_priors self"
    and "A ! i = assigned_row self (gts ! w) i"
    by blast
  with w iou_w upper strict show ?thesis by blast
qed

theorem conflict_resolution_witness:
  "assign_boxes \<lparr>prior_boxes = [Box 0 0 1 1], background_id = 0, overlap_threshold = 1/2,
       num_classes = 3, box_scale_factors = Scale_factors 1 1 1 1\<rparr>
     [Ground_truth (Box 0 0 1 (4/5)) [0, 0, 1], Ground_truth (Box 0 0 1 1) [0, 1, 0]]
   = Inr [[Some 0, Some 0, Some 0, Some 0, Some 0, Some 1, Some 0,
           Some 1, Some 0, Some 0, Some 0, Some 0, Some 0, Some 0, Some 0]]"
proof -
  let ?m = "\<lparr>prior_boxes = [Box 0 0 1 1], background_id = 0, overlap_threshold = 1/2,
       num_classes = 3, box_scale_factors = Scale_factors 1 1 1 1\<rparr>"
  let ?gts = "[Ground_truth (Box 0 0 1 (4/5)) [0, 0, 1], Ground_truth (Box 0 0 1 1) [0, 1, 0]]"
  have i0: "iou_at ?m ?gts 0 0 = Some (4/5)" and i1: "iou_at ?m ?gts 0 (Suc 0) = Some 1"
    by (simp_all add: iou_at_def intersection_over_union_def np_divide_def)
  have fin: "\<forall>k < length ?gts. iou_at ?m ?gts 0 k \<noteq> None"
  proof (intro allI impI)
    fix k assume "k < length ?gts"
    then have "k = 0 \<or> k = Suc 0" by auto
    then show "iou_at ?m ?gts 0 k \<noteq> None"
    proof
      assume "k = 0" with i0 show ?thesis by simp
    next
      assume "k = Suc 0" with i1 show ?thesis by simp
    qed
  qed
  have "background_is_class ?m" "one_column_per_class ?m ?gts" "0 \<le> overlap_threshold ?m"
    "0 < num_priors ?m" "0 < length ?gts" "Suc 0 < length ?gts" "(0::nat) \<noteq> Suc 0"
    "np_greater (iou_at ?m ?gts 0 0) (overlap_threshold ?m)"
    "np_greater (iou_at ?m ?gts 0 (Suc 0)) (overlap_threshold ?m)"
    by (simp_all add: i0 i1 background_is_class_def one_column_per_class_def num_priors_def
        np_greater_def)
  from conflict_resolution [OF this fin]
  obtain A w v where A: "assign_boxes ?m ?gts = Inr A" and len: "length A = num_priors ?m"
    and w: "w < length ?gts" and v: "iou_at ?m ?gts 0 w = Some v"
    and top: "\<forall>k < length ?gts. \<forall>u. iou_at ?m ?gts 0 k = Some u \<longrightarrow> u \<le> v"
    and row: "A ! 0 = assigned_row ?m (?gts ! w) 0"
    by blast
  from top i1 have "1 \<le> v" by auto
  have "w \<noteq> 0"
  proof
    assume "w = 0"
    with v i0 have "v = 4/5" by simp
    with \<open>1 \<le> v\<close> show False by simp
  qed
  with w have "w = Suc 0" by simp
  with row have "A ! 0 = [Some 0, Some 0, Some 0, Some 0, Some 0, Some 1, Some 0,
           Some 1, Some 0, Some 0, Some 0, Some 0, Some 0, Some 0, Some 0]"
    by (simp add: assigned_row_def encode_row_def np_divide_def np_divide_by_def np_log_def
        eval_nat_numeral)
  moreover from len have "A = [A ! 0]"
    by (cases A) (simp_all add: num_priors_def)
  ultimately show ?thesis using A by simp
qed

lemma selects_object_mask:
  "prior_boxes self \<noteq> [] \<Longrightarrow> selects self g i = object_mask self g ! i"
  by (simp add: selects_def assign_mask_Inr)

lemma np_argmax_char:
  assumes k: "k < length xs"
    and before: "\<forall>j < k. beats (xs ! k) (xs ! j)"
    and all: "\<forall>j < length xs. \<not> beats (xs ! j) (xs ! k)"
  shows "np_argmax xs = k"
proof -
  let ?w = "np_argmax xs"
  from k have ne: "xs \<noteq> []" by auto
  have w: "?w < length xs" using ne by (rule np_argmax_less)
  have "\<not> ?w < k"
  proof
    assume "?w < k"
    with before have "beats (xs ! k) (xs ! ?w)" by blast
    with np_argmax_greatest [OF k] show False by blast
  qed
  moreover have "\<not> k < ?w"
  proof
    assume "k < ?w"
    then have "beats (xs ! ?w) (xs ! k)" by (rule np_argmax_first)
    with all w show False by blast
  qed
  ultimately show ?thesis by linarith
qed

lemma stored_iou_selects:
  assumes "prior_boxes self \<noteq> []"
  shows "stored_iou self (gts ! j) i =
    (if selects self (gt_box (gts ! j)) i then iou_at self gts i j else Some 0)"
  using assms by (simp add: stored_iou_def selects_object_mask iou_at_def)

lemma wins_prior_holder:
  assumes priors: "prior_boxes self \<noteq> []" and k: "k < length gts"
  shows "wins_prior self gts i k \<longleftrightarrow>
    (np_argmax (map (\<lambda>g. stored_iou self g i) gts) = k
     \<and> np_greater (np_amax (map (\<lambda>g. stored_iou self g i) gts)) 0)"
proof
  let ?col = "map (\<lambda>g. stored_iou self g i) gts"
  have col: "?col ! j = stored_iou self (gts ! j) i" if "j < length gts" for j
    using that by simp
  from k have ne: "?col \<noteq> []" by auto
  {
    assume wins: "wins_prior self gts i k"
    then obtain v where sel: "selects self (gt_box (gts ! k)) i"
      and v: "iou_at self gts i k = Some v" "0 < v"
      and others: "\<forall>j < length gts. j \<noteq> k \<and> selects self (gt_box (gts ! j)) i \<longrightarrow>
              (case iou_at self gts i j of None \<Rightarrow> False
               | Some u \<Rightarrow> u \<le> v \<and> (j < k \<longrightarrow> u < v))"
      by (auto simp: wins_prior_def split: option.splits)
    have st_k: "stored_iou self (gts ! k) i = Some v"
      using sel v by (simp add: stored_iou_selects [OF priors])
    have st_j: "\<exists>u. stored_iou self (gts ! j) i = Some u \<and> u \<le> v \<and> (j < k \<longrightarrow> u < v)"
      if j: "j < length gts" for j
    proof (cases "j = k")
      case True
      with st_k show ?thesis by simp
    next
      case False
      show ?thesis
      proof (cases "selects self (gt_box (gts ! j)) i")
        case True
        with others j \<open>j \<noteq> k\<close>
        have c: "case iou_at self gts i j of None \<Rightarrow> False
               | Some u \<Rightarrow> u \<le> v \<and> (j < k \<longrightarrow> u < v)"
          by blast
        then obtain u where "iou_at self gts i j = Some u" "u \<le> v" "j < k \<longrightarrow> u < v"
          by (cases "iou_at self gts i j") auto
        with True show ?thesis
          by (simp add: stored_iou_selects [OF priors])
      next
        case False
        with v(2) show ?thesis
          by (simp add: stored_iou_selects [OF priors])
      qed
    qed
    have "np_argmax ?col = k"
    proof (rule np_argmax_char)
      show "k < length ?col" using k by simp
      show "\<forall>j < k. beats (?col ! k) (?col ! j)"
      proof (intro allI impI)
        fix j assume jk: "j < k"
        with k have j: "j < length gts" by simp
        from st_j [OF j] jk obtain u where "stored_iou self (gts ! j) i = Some u" "u < v"
          by auto
        with st_k k j show "beats (?col ! k) (?col ! j)" by simp
      qed
      show "\<forall>j < length ?col. \<not> beats (?col ! j) (?col ! k)"
      proof (intro allI impI)
        fix j assume "j < length ?col"
        then have j: "j < length gts" by simp
        from st_j [OF j] obtain u where "stored_iou self (gts ! j) i = Some u" "u \<le> v"
          by auto
        with st_k k j show "\<not> beats (?col ! j) (?col ! k)" by simp
      qed
    qed
    moreover have "np_greater (np_amax ?col) 0"
      using \<open>np_argmax ?col = k\<close> st_k v(2) k ne by (simp add: np_amax_argmax np_greater_def)
    ultimately show "np_argmax ?col = k \<and> np_greater (np_amax ?col) 0" ..
  }
  {
    assume holder: "np_argmax ?col = k \<and> np_greater (np_amax ?col) 0"
    then have arg: "np_argmax ?col = k" and "np_greater (np_amax ?col) 0"
      by simp_all
    then have pos: "np_greater (?col ! k) 0"
      using np_amax_argmax [OF ne] by metis
    from pos k obtain v where st_k: "stored_iou self (gts ! k) i = Some v" and v: "0 < v"
      by (auto simp: np_greater_def split: option.splits)
    then have sel: "selects self (gt_box (gts ! k)) i" and iou: "iou_at self gts i k = Some v"
      by (auto simp: stored_iou_selects [OF priors] split: if_splits)
    have "case iou_at self gts i j of None \<Rightarrow> False
               | Some u \<Rightarrow> u \<le> v \<and> (j < k \<longrightarrow> u < v)"
      if j: "j < length gts" and sj: "selects self (gt_box (gts ! j)) i" for j
    proof -
      have st_j: "stored_iou self (gts ! j) i = iou_at self gts i j"
        using sj by (simp add: stored_iou_selects [OF priors])
      have "\<not> beats (?col ! j) (?col ! np_argmax ?col)"
        using j by (intro np_argmax_greatest) simp
      then have le: "\<not> beats (iou_at self gts i j) (Some v)"
        using arg j k st_j st_k by simp
      have lt: "beats (Some v) (iou_at self gts i j)" if "j < k"
      proof -
        from that arg have "j < np_argmax ?col" by simp
        then have "beats (?col ! np_argmax ?col) (?col ! j)" by (rule np_argmax_first)
        then show ?thesis using arg j k st_j st_k by simp
      qed
      from le lt show ?thesis
        by (auto simp: beats_def split: option.splits)
    qed
    with sel iou v show "wins_prior self gts i k"
      by (auto simp: wins_prior_def)
  }
qed

lemma loses_prior_not_wins:
  assumes loses: "loses_prior self gts i k"
  shows "\<not> wins_prior self gts i k"
proof
  assume wins: "wins_prior self gts i k"
  then obtain v where sel: "selects self (gt_box (gts ! k)) i"
    and v: "iou_at self gts i k = Some v"
    and others: "\<forall>j < length gts. j \<noteq> k \<and> selects self (gt_box (gts ! j)) i \<longrightarrow>
            (case iou_at self gts i j of None \<Rightarrow> False
             | Some u \<Rightarrow> u \<le> v \<and> (j < k \<longrightarrow> u < v))"
    by (auto simp: wins_prior_def split: option.splits)
  from loses sel obtain j where j: "j < length gts" "j \<noteq> k"
    "selects self (gt_box (gts ! j)) i"
    and c: "case iou_at self gts i k of None \<Rightarrow> False
          | Some v \<Rightarrow> (case iou_at self gts i j of None \<Rightarrow> False
                       | Some u \<Rightarrow> v < u \<or> (j < k \<and> u = v))"
    unfolding loses_prior_def by blast
  from c v obtain u where u: "iou_at self gts i j = Some u" "v < u \<or> (j < k \<and> u = v)"
    by (cases "iou_at self gts i j") auto
  from others j have "case iou_at self gts i j of None \<Rightarrow> False
             | Some u \<Rightarrow> u \<le> v \<and> (j < k \<longrightarrow> u < v)"
    by blast
  with u show False by auto
qed

lemma assign_boxes_nth:
  assumes bg: "background_is_class self" and shape: "one_column_per_class self gts"
    and i: "i < num_priors self" and gts: "gts \<noteq> []"
  shows "\<exists>A. assign_boxes self gts = Inr A \<and> length A = num_priors self
    \<and> A ! i = (if np_greater (np_amax (map (\<lambda>g. stored_iou self g i) gts)) 0
               then assigned_row self (gts ! np_argmax (map (\<lambda>g. stored_iou self g i) gts)) i
               else unassigned_row self)"
proof (cases "np_greater (np_amax (map (\<lambda>g. stored_iou self g i) gts)) 0")
  case True
  let ?col = "map (\<lambda>g. stored_iou self g i) gts"
  let ?w = "np_argmax ?col"
  from gts have ne: "?col \<noteq> []" by simp
  have w: "?w < length gts"
    using np_argmax_less [OF ne] by simp
  from True have "np_greater (?col ! ?w) 0"
    using np_amax_argmax [OF ne] by metis
  with w obtain v where "stored_iou self (gts ! ?w) i = Some v" "0 < v"
    by (auto simp: np_greater_def split: option.splits)
  from assign_boxes_row_of_winner [OF bg shape i w refl this] True
  show ?thesis by auto
next
  case False
  let ?enc = "map (\<lambda>g. object_rows self (gt_box g)) gts"
  from i have priors: "prior_boxes self \<noteq> []" by (auto simp: num_priors_def)
  from shape have "list_all (class_columns_fit self) gts"
    by (simp add: one_column_per_class_def list_all_iff class_columns_fit_exact)
  from assign_boxes_rows [OF background_row_class [OF bg] priors gts this]
  have A: "assign_boxes self gts =
      Inr (map (\<lambda>i. assign_row self gts ?enc i (unassigned_row self)) [0..<num_priors self])"
    .
  have "assign_row self gts ?enc i (unassigned_row self) = unassigned_row self"
    using False by (intro assign_row_unassigned) (simp add: iou_column_rows [OF i])
  with A i False show ?thesis by simp
qed

text \<open>
  C1. With at least one prior, \<open>_assign_boxes_to_object\<close> selects at least one prior
  for every ground-truth box: the priors whose intersection over union exceeds the
  threshold, or, when there is none, the one prior \<open>argmax\<close> picks. In the matrix that
  \<open>assign_boxes\<close> returns each row holds one box at most. The box holds the row of every
  prior it wins: a prior it selected, where its intersection over union is positive, not
  below that of any other box that selected the prior, and above that of every earlier
  such box. The row of a prior it loses (not selected, or another box that selected it is
  higher, or earlier and equal) is a background row or the row of another box that wins
  the prior; so a box that loses all its selected priors has no row in the matrix.
\<close>

theorem assignment_per_box:
  assumes priors: "prior_boxes self \<noteq> []" and k: "k < length gts"
  shows "(\<exists>selected. assign_mask self (gt_box (gts ! k)) = Inr selected
      \<and> length selected = num_priors self
      \<and> (\<exists>i < num_priors self. selected ! i)
      \<and> (\<forall>i < num_priors self. selected ! i \<longleftrightarrow>
            (np_greater (iou_at self gts i k) (overlap_threshold self)
             \<or> (\<not> (\<exists>j < num_priors self.
                       np_greater (iou_at self gts j k) (overlap_threshold self))
                  \<and> i = np_argmax
                          (calculate_intersection_over_unions self (gt_box (gts ! k)))))))
    \<and> (background_is_class self \<and> one_column_per_class self gts \<longrightarrow>
        (\<exists>A. assign_boxes self gts = Inr A \<and> length A = num_priors self
          \<and> (\<forall>i < num_priors self.
                (wins_prior self gts i k \<longrightarrow> A ! i = assigned_row self (gts ! k) i)
              \<and> (loses_prior self gts i k \<longrightarrow>
                   A ! i = unassigned_row self
                   \<or> (\<exists>w < length gts. w \<noteq> k \<and> wins_prior self gts i w
                         \<and> A ! i = assigned_row self (gts ! w) i)))
          \<and> ((\<forall>i < num_priors self. loses_prior self gts i k) \<longrightarrow>
               (\<forall>i < num_priors self.
                  A ! i = unassigned_row self
                  \<or> (\<exists>w < length gts. w \<noteq> k \<and> A ! i = assigned_row self (gts ! w) i)))))"
proof -
  let ?g = "gt_box (gts ! k)"
  let ?ious = "calculate_intersection_over_unions self ?g"
  let ?sel = "object_mask self ?g"
  have mask: "assign_mask self ?g = Inr ?sel"
    using priors by (rule assign_mask_Inr)
  have len: "length ?sel = num_priors self"
    by (rule length_object_mask)
  have nth: "?sel ! i \<longleftrightarrow>
            (np_greater (iou_at self gts i k) (overlap_threshold self)
             \<or> (\<not> (\<exists>j < num_priors self.
                       np_greater (iou_at self gts j k) (overlap_threshold self))
                  \<and> i = np_argmax ?ious))" if "i < num_priors self" for i
    using object_mask_nth [OF that, of ?g] by (simp add: iou_at_def)
  have some: "\<exists>i < num_priors self. ?sel ! i"
  proof (cases "\<exists>j < num_priors self.
                  np_greater (iou_at self gts j k) (overlap_threshold self)")
    case True
    then show ?thesis using nth by blast
  next
    case False
    from priors have "?ious \<noteq> []"
      by (simp add: calculate_intersection_over_unions_def)
    then have "np_argmax ?ious < length ?ious"
      by (rule np_argmax_less)
    then have "np_argmax ?ious < num_priors self"
      by (simp add: calculate_intersection_over_unions_def num_priors_def)
    with False nth show ?thesis by blast
  qed
  have part1: "\<exists>selected. assign_mask self ?g = Inr selected
      \<and> length selected = num_priors self
      \<and> (\<exists>i < num_priors self. selected ! i)
      \<and> (\<forall>i < num_priors self. selected ! i \<longleftrightarrow>
            (np_greater (iou_at self gts i k) (overlap_threshold self)
             \<or> (\<not> (\<exists>j < num_priors self.
                       np_greater (iou_at self gts j k) (overlap_threshold self))
                  \<and> i = np_argmax ?ious)))"
    using mask len some nth by (intro exI [of _ ?sel]) blast
  have part2: "\<exists>A. assign_boxes self gts = Inr A \<and> length A = num_priors self
          \<and> (\<forall>i < num_priors self.
                (wins_prior self gts i k \<longrightarrow> A ! i = assigned_row self (gts ! k) i)
              \<and> (loses_prior self gts i k \<longrightarrow>
                   A ! i = unassigned_row self
                   \<or> (\<exists>w < length gts. w \<noteq> k \<and> wins_prior self gts i w
                         \<and> A ! i = assigned_row self (gts ! w) i)))
          \<and> ((\<forall>i < num_priors self. loses_prior self gts i k) \<longrightarrow>
               (\<forall>i < num_priors self.
                  A ! i = unassigned_row self
                  \<or> (\<exists>w < length gts. w \<noteq> k \<and> A ! i = assigned_row self (gts ! w) i)))"
    if bg: "background_is_class self" and shape: "one_column_per_class self gts"
  proof -
    from k have gts: "gts \<noteq> []" by auto
    from priors have "0 < num_priors self" by (simp add: num_priors_def)
    from assign_boxes_nth [OF bg shape this gts]
    obtain A where A: "assign_boxes self gts = Inr A" and lenA: "length A = num_priors self"
      by blast
    have row: "A ! i = (if np_greater (np_amax (map (\<lambda>g. stored_iou self g i) gts)) 0
               then assigned_row self (gts ! np_argmax (map (\<lambda>g. stored_iou self g i) gts)) i
               else unassigned_row self)" if "i < num_priors self" for i
      using assign_boxes_nth [OF bg shape that gts] A by auto
    have won: "A ! i = assigned_row self (gts ! k) i"
      if "i < num_priors self" "wins_prior self gts i k" for i
      using row [OF that(1)] that(2) wins_prior_holder [OF priors k, of i] by simp
    have lost: "A ! i = unassigned_row self
                   \<or> (\<exists>w < length gts. w \<noteq> k \<and> wins_prior self gts i w
                         \<and> A ! i = assigned_row self (gts ! w) i)"
      if i: "i < num_priors self" and l: "loses_prior self gts i k" for i
    proof (cases "np_greater (np_amax (map (\<lambda>g. stored_iou self g i) gts)) 0")
      case False
      with row [OF i] show ?thesis by simp
    next
      case True
      let ?w = "np_argmax (map (\<lambda>g. stored_iou self g i) gts)"
      have w: "?w < length gts"
        using np_argmax_less [of "map (\<lambda>g. stored_iou self g i) gts"] gts by simp
      from True have ww: "wins_prior self gts i ?w"
        using wins_prior_holder [OF priors w, of i] by simp
      moreover from l have "\<not> wins_prior self gts i k"
        by (rule loses_prior_not_wins)
      ultimately have "?w \<noteq> k" by auto
      with w ww row [OF i] True show ?thesis by auto
    qed
    from A lenA won lost show ?thesis by blast
  qed
  from part1 part2 show ?thesis by blast
qed

theorem assignment_per_box_witness:
  "assign_mask \<lparr>prior_boxes = [Box 0 0 1 1, Box 0 0 (1/2) (1/2)], background_id = 0,
       overlap_threshold = 1/2, num_classes = 3,
       box_scale_factors = Scale_factors 1 1 1 1\<rparr> (Box 0 0 (1/5) (1/5)) = Inr [False, True]
   \<and> wins_prior \<lparr>prior_boxes = [Box 0 0 1 1, Box 0 0 (1/2) (1/2)], background_id = 0,
       overlap_threshold = 1/2, num_classes = 3,
       box_scale_factors = Scale_factors 1 1 1 1\<rparr>
       [Ground_truth (Box 0 0 1 1) [0, 1, 0], Ground_truth (Box 0 0 (1/5) (1/5)) [0, 0, 1]]
       (Suc 0) (Suc 0)
   \<and> loses_prior \<lparr>prior_boxes = [Box 0 0 1 1, Box 0 0 (1/2) (1/2)], background_id = 0,
       overlap_threshold = 1/2, num_classes = 3,
       box_scale_factors = Scale_factors 1 1 1 1\<rparr>
       [Ground_truth (Box 0 0 1 1) [0, 1, 0], Ground_truth (Box 0 0 (1/5) (1/5)) [0, 0, 1]]
       0 (Suc 0)
   \<and> assign_boxes \<lparr>prior_boxes = [Box 0 0 1 1, Box 0 0 (1/2) (1/2)], background_id = 0,
       overlap_threshold = 1/2, num_classes = 3,
       box_scale_factors = Scale_factors 1 1 1 1\<rparr>
       [Ground_truth (Box 0 0 1 1) [0, 1, 0], Ground_truth (Box 0 0 (1/5) (1/5)) [0, 0, 1]]
     = Inr [[Some 0, Some 0, Some 0, Some 0, Some 0, Some 1, Some 0,
             Some 1, Some 0, Some 0, Some 0, Some 0, Some 0, Some 0, Some 0],
            [Some (- 3/10), Some (- 3/10), Some (ln (2/5)), Some (ln (2/5)), Some 0, Some 0,
             Some 1, Some 1, Some 0, Some 0, Some 0, Some 0, Some 0, Some 0, Some 0]]"
proof -
  let ?m = "\<lparr>prior_boxes = [Box 0 0 1 1, Box 0 0 (1/2) (1/2)], background_id = 0,
       overlap_threshold = 1/2, num_classes = 3,
       box_scale_factors = Scale_factors 1 1 1 1\<rparr>"
  let ?gts = "[Ground_truth (Box 0 0 1 1) [0, 1, 0],
               Ground_truth (Box 0 0 (1/5) (1/5)) [0, 0, 1]]"
  have n: "num_priors ?m = Suc (Suc 0)"
    by (simp add: num_priors_def)
  have u: "intersection_over_union (Box 0 0 1 1) (Box 0 0 1 1) = Some 1"
    "intersection_over_union (Box 0 0 (1/2) (1/2)) (Box 0 0 1 1) = Some (1/4)"
    "intersection_over_union (Box 0 0 1 1) (Box 0 0 (1/5) (1/5)) = Some (1/25)"
    "intersection_over_union (Box 0 0 (1/2) (1/2)) (Box 0 0 (1/5) (1/5)) = Some (4/25)"
    by (simp_all add: intersection_over_union_def np_divide_def)
  have m0: "assign_mask ?m (Box 0 0 1 1) = Inr [True, False]"
    by (simp add: assign_mask_def calculate_intersection_over_unions_def u np_greater_def)
  have m1: "assign_mask ?m (Box 0 0 (1/5) (1/5)) = Inr [False, True]"
    by (simp add: assign_mask_def calculate_intersection_over_unions_def u np_greater_def
        beats_def)
  have w1: "wins_prior ?m ?gts (Suc 0) (Suc 0)"
    by (simp add: wins_prior_def selects_def m0 m1 iou_at_def u less_Suc_eq)
  have w0: "wins_prior ?m ?gts 0 0"
    by (simp add: wins_prior_def selects_def m0 m1 iou_at_def u less_Suc_eq)
  have l01: "loses_prior ?m ?gts 0 (Suc 0)"
    by (simp add: loses_prior_def selects_def m1)
  have h: "prior_boxes ?m \<noteq> []" "Suc 0 < length ?gts" "0 < length ?gts"
    "background_is_class ?m \<and> one_column_per_class ?m ?gts"
    by (simp_all add: background_is_class_def one_column_per_class_def)
  from assignment_per_box [OF h(1) h(2)] h(4)
  obtain A where A: "assign_boxes ?m ?gts = Inr A" "length A = num_priors ?m"
    and A1: "\<forall>i < num_priors ?m.
                wins_prior ?m ?gts i (Suc 0) \<longrightarrow> A ! i = assigned_row ?m (?gts ! Suc 0) i"
    by blast
  from assignment_per_box [OF h(1) h(3)] h(4)
  obtain A' where A': "assign_boxes ?m ?gts = Inr A'"
    and A0: "\<forall>i < num_priors ?m.
                wins_prior ?m ?gts i 0 \<longrightarrow> A' ! i = assigned_row ?m (?gts ! 0) i"
    by blast
  from A A' have same: "A' = A" by simp
  have r1: "A ! Suc 0 = assigned_row ?m (?gts ! Suc 0) (Suc 0)"
    using A1 w1 n by simp
  have r0: "A ! 0 = assigned_row ?m (?gts ! 0) 0"
    using A0 w0 n same by simp
  from A(2) n obtain x y where xy: "A = [x, y]"
    by (cases A; cases "tl A") auto
  have e0: "assigned_row ?m (?gts ! 0) 0
      = [Some 0, Some 0, Some 0, Some 0, Some 0, Some 1, Some 0,
         Some 1, Some 0, Some 0, Some 0, Some 0, Some 0, Some 0, Some 0]"
    by (simp add: assigned_row_def encode_row_def np_divide_def np_divide_by_def np_log_def
        eval_nat_numeral)
  have e1: "assigned_row ?m (?gts ! Suc 0) (Suc 0)
      = [Some (- 3/10), Some (- 3/10), Some (ln (2/5)), Some (ln (2/5)), Some 0, Some 0,
         Some 1, Some 1, Some 0, Some 0, Some 0, Some 0, Some 0, Some 0, Some 0]"
    by (simp add: assigned_row_def encode_row_def np_divide_def np_divide_by_def np_log_def
        eval_nat_numeral)
  from xy r0 r1 e0 e1 have "A = [[Some 0, Some 0, Some 0, Some 0, Some 0, Some 1, Some 0,
             Some 1, Some 0, Some 0, Some 0, Some 0, Some 0, Some 0, Some 0],
            [Some (- 3/10), Some (- 3/10), Some (ln (2/5)), Some (ln (2/5)), Some 0, Some 0,
             Some 1, Some 1, Some 0, Some 0, Some 0, Some 0, Some 0, Some 0, Some 0]]"
    by simp
  with A(1) m1 w1 l01 show ?thesis by simp
qed

text \<open>
  The claim fails for one prior and two ground-truth boxes that both exceed the threshold
  for it: the second box, of class 2, has the prior selected by
  \<open>_assign_boxes_to_object\<close>, but the only row of the returned matrix is the row of the
  first box, of class 1, so the second box is left without any prior.
\<close>

theorem assignment_completeness_counterexample:
  "assign_mask \<lparr>prior_boxes = [Box 0 0 1 1], background_id = 0, overlap_threshold = 1/2,
       num_classes = 3, box_scale_factors = Scale_factors 1 1 1 1\<rparr> (Box 0 0 1 (4/5))
     = Inr [True]
   \<and> assign_boxes \<lparr>prior_boxes = [Box 0 0 1 1], background_id = 0, overlap_threshold = 1/2,
       num_classes = 3, box_scale_factors = Scale_factors 1 1 1 1\<rparr>
       [Ground_truth (Box 0 0 1 1) [0, 1, 0], Ground_truth (Box 0 0 1 (4/5)) [0, 0, 1]]
     = Inr [[Some 0, Some 0, Some 0, Some 0, Some 0, Some 1, Some 0,
             Some 1, Some 0, Some 0, Some 0, Some 0, Some 0, Some 0, Some 0]]"
proof -
  let ?m = "\<lparr>prior_boxes = [Box 0 0 1 1], background_id = 0, overlap_threshold = 1/2,
       num_classes = 3, box_scale_factors = Scale_factors 1 1 1 1\<rparr>"
  let ?gts = "[Ground_truth (Box 0 0 1 1) [0, 1, 0], Ground_truth (Box 0 0 1 (4/5)) [0, 0, 1]]"
  have u0: "intersection_over_union (Box 0 0 1 1) (Box 0 0 1 1) = Some 1"
    and u1: "intersection_over_union (Box 0 0 1 1) (Box 0 0 1 (4/5)) = Some (4/5)"
    by (simp_all add: intersection_over_union_def np_divide_def)
  have mask: "assign_mask ?m (Box 0 0 1 (4/5)) = Inr [True]"
    by (simp add: assign_mask_def calculate_intersection_over_unions_def u1 np_greater_def)
  have s0: "stored_iou ?m (?gts ! 0) 0 = Some 1"
    by (simp add: stored_iou_def object_mask_def calculate_intersection_over_unions_def u0
        np_greater_def)
  have s1: "stored_iou ?m (?gts ! Suc 0) 0 = Some (4/5)"
    by (simp add: stored_iou_def object_mask_def calculate_intersection_over_unions_def u1
        np_greater_def)
  have arg: "np_argmax (map (\<lambda>g. stored_iou ?m g 0) ?gts) = 0"
    using s0 s1 by simp
  have "background_is_class ?m" "one_column_per_class ?m ?gts" "0 < num_priors ?m"
    "0 < length ?gts"
    by (simp_all add: background_is_class_def one_column_per_class_def num_priors_def)
  from assign_boxes_row_of_winner [OF this arg s0]
  obtain A where A: "assign_boxes ?m ?gts = Inr A" "length A = num_priors ?m"
    "A ! 0 = assigned_row ?m (?gts ! 0) 0"
    by auto
  have "assigned_row ?m (?gts ! 0) 0
      = [Some 0, Some 0, Some 0, Some 0, Some 0, Some 1, Some 0,
         Some 1, Some 0, Some 0, Some 0, Some 0, Some 0, Some 0, Some 0]"
    by (simp add: assigned_row_def encode_row_def np_divide_def np_divide_by_def np_log_def
        eval_nat_numeral)
  moreover from A(2) have "A = [A ! 0]"
    by (cases A) (simp_all add: num_priors_def)
  ultimately show ?thesis using A mask by simp
qed

section \<open>Facts about the image generator\<close>

lemma is_permutation_length: "is_permutation order n \<Longrightarrow> length order = n"
  using distinct_card [of order] by (simp add: is_permutation_def)

lemma set_shuffled:
  assumes "is_permutation order (length xs)"
  shows "set (shuffled order xs) = set xs"
proof -
  have "set (shuffled order xs) = (\<lambda>i. xs ! i) ` {..<length xs}"
    using assms by (simp add: shuffled_def is_permutation_def)
  also have "\<dots> = set xs"
    by (auto simp: set_conv_nth)
  finally show ?thesis .
qed

text \<open>
  C7. For a ratio \<open>r \<ge> 0\<close>, a matrix whose rows have a column 4 and a permutation of
  the indices of the background rows, \<open>_select_samples\<close> returns all foreground rows
  (column 4 is not 1) in their order, and background rows of the matrix whose number is
  the smaller of \<open>r\<close> times the number of foreground rows and the number of background
  rows, so at most \<open>r\<close> times the number of foreground rows.
\<close>

theorem negative_sample_cap:
  assumes r: "0 \<le> negative_positive_ratio self"
    and wide: "\<forall>row \<in> set assigned_data. 5 \<le> length row"
    and perm: "is_permutation permutation
                 (length (filter (\<lambda>row. row ! 4 = Some 1) assigned_data))"
  shows "\<exists>object_data background_data.
      select_samples self permutation assigned_data = Inr (object_data, background_data)
      \<and> object_data = filter (\<lambda>row. row ! 4 \<noteq> Some 1) assigned_data
      \<and> set background_data \<subseteq> set (filter (\<lambda>row. row ! 4 = Some 1) assigned_data)
      \<and> int (length background_data)
          = min (negative_positive_ratio self * int (length object_data))
                (int (length (filter (\<lambda>row. row ! 4 = Some 1) assigned_data)))
      \<and> int (length background_data)
          \<le> negative_positive_ratio self * int (length object_data)"
proof -
  let ?fg = "filter (\<lambda>row. row ! 4 \<noteq> Some 1) assigned_data"
  let ?bg = "filter (\<lambda>row. row ! 4 = Some 1) assigned_data"
  let ?k = "negative_positive_ratio self * int (length ?fg)"
  let ?args = "py_prefix ?k permutation"
  from r have k: "0 \<le> ?k" by simp
  then have args: "?args = take (nat ?k) permutation"
    by (simp add: py_prefix_def)
  have len: "length permutation = length ?bg"
    using perm by (rule is_permutation_length)
  have "set ?args \<subseteq> set permutation"
    unfolding args by (rule set_take_subset)
  then have small: "\<forall>arg \<in> set ?args. arg < length ?bg"
    using perm by (auto simp: is_permutation_def)
  then have ok: "\<not> list_ex (\<lambda>arg. length ?bg \<le> arg) ?args"
    by (auto simp: list_ex_iff)
  have wide': "\<not> list_ex (\<lambda>row. length row < 5) assigned_data"
    using wide by (auto simp: list_ex_iff)
  let ?sel = "map (\<lambda>arg. ?bg ! arg) ?args"
  have res: "select_samples self permutation assigned_data = Inr (?fg, ?sel)"
    using wide' ok by (simp add: select_samples_def Let_def)
  have sub: "set ?sel \<subseteq> set ?bg"
  proof
    fix row assume "row \<in> set ?sel"
    then obtain arg where "arg \<in> set ?args" and row: "row = ?bg ! arg"
      by (auto simp del: set_filter)
    with small have "arg < length ?bg" by blast
    then show "row \<in> set ?bg"
      unfolding row by (rule nth_mem)
  qed
  have "length ?sel = min (nat ?k) (length ?bg)"
    unfolding args using len by simp
  then have cnt: "int (length ?sel) = min ?k (int (length ?bg))"
    using k by (simp add: min_def) linarith
  then have "int (length ?sel) \<le> ?k" by simp
  with res sub cnt show ?thesis by blast
qed

theorem negative_sample_cap_witness:
  "select_samples
     \<lparr>negative_positive_ratio = 1, ground_truth_data = Map.empty,
      box_manager = \<lparr>prior_boxes = [], background_id = 0, overlap_threshold = 1/2,
                      num_classes = 1, box_scale_factors = Scale_factors 1 1 1 1\<rparr>,
      batch_size = 1, path_prefix = None, train_keys = [], validation_keys = [],
      image_size = (1, 1), suffix = [], color_jitter = [], saturation_var = None,
      brightness_var = None, contrast_var = None, lighting_std = 0,
      horizontal_flip_probability = 0, vertical_flip_probability = 0\<rparr>
     [2, 0, 1]
     [[Some 0, Some 0, Some 0, Some 0, Some 0], [Some 1, Some 1, Some 1, Some 1, Some 1],
      [Some 2, Some 2, Some 2, Some 2, Some 1], [Some 3, Some 3, Some 3, Some 3, Some 1]]
   = Inr ([[Some 0, Some 0, Some 0, Some 0, Some 0]],
          [[Some 3, Some 3, Some 3, Some 3, Some 1]])
   \<and> int (length [[Some 3, Some 3, Some 3, Some 3, Some (1::real)]])
       \<le> 1 * int (length [[Some 0, Some 0, Some 0, Some 0, Some (0::real)]])"
proof -
  let ?g = "\<lparr>negative_positive_ratio = 1, ground_truth_data = Map.empty,
      box_manager = \<lparr>prior_boxes = [], background_id = 0, overlap_threshold = 1/2,
                      num_classes = 1, box_scale_factors = Scale_factors 1 1 1 1\<rparr>,
      batch_size = 1, path_prefix = None, train_keys = [], validation_keys = [],
      image_size = (1, 1), suffix = [], color_jitter = [], saturation_var = None,
      brightness_var = None, contrast_var = None, lighting_std = 0,
      horizontal_flip_probability = 0, vertical_flip_probability = 0\<rparr>"
  let ?A = "[[Some 0, Some 0, Some 0, Some 0, Some 0], [Some 1, Some 1, Some 1, Some 1, Some 1],
      [Some 2, Some 2, Some 2, Some 2, Some 1], [Some 3, Some 3, Some 3, Some 3, Some (1::real)]]"
  let ?X = "[[Some 0, Some 0, Some 0, Some 0, Some (0::real)]]"
  let ?Y = "[[Some 3, Some 3, Some 3, Some 3, Some (1::real)]]"
  have ev: "select_samples ?g [2, 0, 1] ?A = Inr (?X, ?Y)"
    by (simp add: select_samples_def py_prefix_def Let_def)
  have "0 \<le> negative_positive_ratio ?g" "\<forall>row \<in> set ?A. 5 \<le> length row"
    "is_permutation [2, 0, 1] (length (filter (\<lambda>row. row ! 4 = Some 1) ?A))"
    by (auto simp: is_permutation_def lessThan_Suc)
  from negative_sample_cap [OF this]
  obtain object_data background_data where
    "select_samples ?g [2, 0, 1] ?A = Inr (object_data, background_data)"
    "int (length background_data) \<le> negative_positive_ratio ?g * int (length object_data)"
    by blast
  with ev have "int (length ?Y) \<le> 1 * int (length ?X)"
    by simp
  with ev show ?thesis by blast
qed

lemma saturation_without_brightness_var:
  "brightness_var self = None \<Longrightarrow> saturation self u image_array = Inl AttributeError"
  by (simp add: saturation_def)

lemma apply_jitter_error:
  "apply_jitter self u jitter image_array = Inl e \<Longrightarrow> e = AttributeError"
  by (cases jitter)
     (auto simp: saturation_def brightness_def contrast_def Let_def split: option.splits)

lemma apply_jitters_saturation:
  assumes "Saturation \<in> set jitters" and "brightness_var self = None"
  shows "apply_jitters self draws n jitters image_array = Inl AttributeError"
  using assms(1)
proof (induction jitters arbitrary: n image_array)
  case Nil
  then show ?case by simp
next
  case (Cons jitter rest)
  show ?case
  proof (cases "apply_jitter self (draws n) jitter image_array")
    case (Inl e)
    then show ?thesis
      using apply_jitter_error [OF Inl] by simp
  next
    case (Inr image_array')
    then have "jitter \<noteq> Saturation"
      using saturation_without_brightness_var [OF assms(2)] by auto
    with Cons.prems have "Saturation \<in> set rest" by simp
    with Cons.IH Inr show ?thesis by simp
  qed
qed

text \<open>
  C9. A generator constructed with a \<open>saturation_var\<close> that is not 0 and with
  \<open>brightness_var = 0\<close> has \<open>saturation\<close> in its \<open>color_jitter\<close> list and no attribute
  \<open>brightness_var\<close>. Whatever order \<open>shuffle\<close> gives to the list, whatever the image,
  the boxes and the random numbers are, \<open>transform\<close> raises AttributeError.
\<close>

theorem saturation_needs_brightness_var:
  assumes "saturation_var' \<noteq> 0"
    and "self = init_image_generator ground_truth_data' box_manager' batch_size' image_size'
           train_keys' validation_keys' path_prefix' suffix' negative_positive_ratio'
           saturation_var' 0 contrast_var' lighting_std' horizontal_flip_probability'
           vertical_flip_probability'"
    and "is_permutation (shuffle_order draws) (length (color_jitter self))"
  shows "Saturation \<in> set (color_jitter self) \<and> brightness_var self = None
       \<and> transform self draws image_array box_corners heap = Inl AttributeError"
proof -
  have sat: "Saturation \<in> set (color_jitter self)" and none: "brightness_var self = None"
    using assms(1) by (simp_all add: assms(2) init_image_generator_def)
  let ?self = "self\<lparr>color_jitter := shuffled (shuffle_order draws) (color_jitter self)\<rparr>"
  have "Saturation \<in> set (color_jitter ?self)"
    using sat set_shuffled [OF assms(3)] by simp
  moreover have "brightness_var ?self = None"
    using none by simp
  ultimately have "apply_jitters ?self (jitter_draws draws) 0 (color_jitter ?self) image_array
      = Inl AttributeError"
    by (rule apply_jitters_saturation)
  then have "transform self draws image_array box_corners heap = Inl AttributeError"
    by (simp add: transform_def Let_def)
  with sat none show ?thesis by simp
qed

theorem saturation_needs_brightness_var_witness:
  "transform
     (init_image_generator Map.empty
        \<lparr>prior_boxes = [Box 0 0 1 1], background_id = 0, overlap_threshold = 1/2,
         num_classes = 2, box_scale_factors = Scale_factors 1 1 1 1\<rparr>
        1 (1, 1) [] [] None [] 1 (1/2) 0 (1/2) (1/2) (1/2) (1/2))
     \<lparr>shuffle_order = [1, 0], jitter_draws = (\<lambda>n. 1/2), lighting_result = Inr,
      horizontal_draw = 0, vertical_draw = 0\<rparr>
     [[(10, 20, 30)]] 0 (\<lambda>a. [])
   = Inl AttributeError"
proof -
  let ?g = "init_image_generator Map.empty
        \<lparr>prior_boxes = [Box 0 0 1 1], background_id = 0, overlap_threshold = 1/2,
         num_classes = 2, box_scale_factors = Scale_factors 1 1 1 1\<rparr>
        1 (1, 1) [] [] None [] 1 (1/2) 0 (1/2) (1/2) (1/2) (1/2)"
  let ?d = "\<lparr>shuffle_order = [1, 0], jitter_draws = (\<lambda>n. 1/2), lighting_result = Inr,
      horizontal_draw = 0, vertical_draw = 0\<rparr>"
  have nz: "(1/2 :: real) \<noteq> 0" by simp
  have eq: "?g = init_image_generator Map.empty
        \<lparr>prior_boxes = [Box 0 0 1 1], background_id = 0, overlap_threshold = 1/2,
         num_classes = 2, box_scale_factors = Scale_factors 1 1 1 1\<rparr>
        1 (1, 1) [] [] None [] 1 (1/2) 0 (1/2) (1/2) (1/2) (1/2)"
    by (rule refl)
  have perm: "is_permutation (shuffle_order ?d) (length (color_jitter ?g))"
    by (auto simp: is_permutation_def init_image_generator_def lessThan_Suc)
  from saturation_needs_brightness_var [OF nz eq perm] show ?thesis
    by blast
qed

lemma transform_heap:
  assumes "transform self draws image_array box_corners heap
             = Inr (self', image_array', box_corners', heap')"
  shows "box_corners' = box_corners
       \<and> heap' = heap(box_corners := flipped_boxes self draws (heap box_corners))"
  using assms
  by (auto simp: transform_def Let_def horizontal_flip_def vertical_flip_def
      flipped_boxes_def split: sum.splits if_splits)

lemma transform_self:
  assumes "transform self draws image_array box_corners heap
             = Inr (self', image_array', box_corners', heap')"
  shows "self' = self\<lparr>color_jitter := shuffled (shuffle_order draws) (color_jitter self)\<rparr>"
  using assms
  by (auto simp: transform_def Let_def horizontal_flip_def vertical_flip_def
      split: sum.splits if_splits)

lemma flow_key_heap:
  assumes "mode = ''train'' \<or> mode = ''demo''"
    and "ground_truth_data self key = Some box_data"
    and "flow_key self ext draws mode key heap = Inr (self', heap', images, classes)"
  shows "heap' = heap(box_data := flipped_boxes self (transform_random draws) (heap box_data))
       \<and> ground_truth_data self' = ground_truth_data self"
proof -
  from assms obtain prefix image_array' box_data' where
    "transform self (transform_random draws) (read_image ext (prefix @ key @ suffix self))
       box_data heap = Inr (self', image_array', box_data', heap')"
    by (auto simp: flow_key_def Let_def split: option.splits sum.splits)
  then show ?thesis
    using transform_heap transform_self by fastforce
qed

lemma flow_step_arrays:
  assumes "flow_step ext mode draws key st = Inr st'"
  shows "\<exists>self' images classes.
           flow_key (generator st) ext draws mode key (arrays st)
             = Inr (self', arrays st', images, classes) \<and> generator st' = self'"
  using assms
  by (auto simp: flow_step_def Let_def split: sum.splits if_splits)

lemma flipped_boxes_explicit:
  "flipped_boxes self draws boxes =
     map (\<lambda>g. Ground_truth
            (Box (if horizontal_flip_probability self > 0
                     \<and> horizontal_draw draws < horizontal_flip_probability self
                  then 1 - x_max (gt_box g) else x_min (gt_box g))
                 (if vertical_flip_probability self > 0
                     \<and> vertical_draw draws < vertical_flip_probability self
                  then 1 - y_max (gt_box g) else y_min (gt_box g))
                 (if horizontal_flip_probability self > 0
                     \<and> horizontal_draw draws < horizontal_flip_probability self
                  then 1 - x_min (gt_box g) else x_max (gt_box g))
                 (if vertical_flip_probability self > 0
                     \<and> vertical_draw draws < vertical_flip_probability self
                  then 1 - y_min (gt_box g) else y_max (gt_box g)))
            (gt_classes g)) boxes"
proof -
  let ?H = "horizontal_flip_probability self > 0
              \<and> horizontal_draw draws < horizontal_flip_probability self"
  let ?V = "vertical_flip_probability self > 0
              \<and> vertical_draw draws < vertical_flip_probability self"
  have "flipped_boxes self draws boxes
      = map (\<lambda>g. (if ?V then flip_columns_1_3 else (\<lambda>g. g))
                   ((if ?H then flip_columns_0_2 else (\<lambda>g. g)) g)) boxes"
    by (simp add: flipped_boxes_def Let_def)
  also have "\<dots> = map (\<lambda>g. Ground_truth
            (Box (if ?H then 1 - x_max (gt_box g) else x_min (gt_box g))
                 (if ?V then 1 - y_max (gt_box g) else y_min (gt_box g))
                 (if ?H then 1 - x_min (gt_box g) else x_max (gt_box g))
                 (if ?V then 1 - y_min (gt_box g) else y_max (gt_box g)))
            (gt_classes g)) boxes"
  proof (rule map_cong [OF refl])
    fix g
    obtain x0 y0 x1 y1 cls where g: "g = Ground_truth (Box x0 y0 x1 y1) cls"
      by (cases g; cases "gt_box g") auto
    show "(if ?V then flip_columns_1_3 else (\<lambda>g. g))
            ((if ?H then flip_columns_0_2 else (\<lambda>g. g)) g)
        = Ground_truth
            (Box (if ?H then 1 - x_max (gt_box g) else x_min (gt_box g))
                 (if ?V then 1 - y_max (gt_box g) else y_min (gt_box g))
                 (if ?H then 1 - x_min (gt_box g) else x_max (gt_box g))
                 (if ?V then 1 - y_min (gt_box g) else y_max (gt_box g)))
            (gt_classes g)"
      unfolding g by (simp add: flip_columns_0_2_def flip_columns_1_3_def)
  qed
  finally show ?thesis .
qed

lemma flipped_boxes_jitter [simp]:
  "flipped_boxes (self\<lparr>color_jitter := c\<rparr>) draws boxes = flipped_boxes self draws boxes"
  by (simp add: flipped_boxes_def)

lemma flips_of_key_jitter [simp]:
  "flips_of_key (self\<lparr>color_jitter := c\<rparr>) draws key heap = flips_of_key self draws key heap"
  by (simp add: flips_of_key_def split: option.splits)

lemma flips_of_keys_jitter [simp]:
  "flips_of_keys (self\<lparr>color_jitter := c\<rparr>) draws n keys heap
     = flips_of_keys self draws n keys heap"
  by (induction keys arbitrary: n heap) simp_all

lemma flips_of_keys_keys [simp]:
  "flips_of_keys (self\<lparr>train_keys := ks\<rparr>) draws n keys heap
     = flips_of_keys self draws n keys heap"
  "flips_of_keys (self\<lparr>validation_keys := ks\<rparr>) draws n keys heap
     = flips_of_keys self draws n keys heap"
  by (induction keys arbitrary: n heap)
     (simp_all add: flips_of_key_def flipped_boxes_def split: option.splits)

lemma flips_of_passes_jitter [simp]:
  "flips_of_passes (self\<lparr>color_jitter := c\<rparr>) mode draws passes n heap
     = flips_of_passes self mode draws passes n heap"
proof (induction passes arbitrary: self n heap mode)
  case 0
  show ?case by simp
next
  case (Suc passes)
  have tr: "self\<lparr>color_jitter := c, train_keys := ks\<rparr>
        = self\<lparr>train_keys := ks, color_jitter := c\<rparr>" for ks
    by simp
  have va: "self\<lparr>color_jitter := c, validation_keys := ks\<rparr>
        = self\<lparr>validation_keys := ks, color_jitter := c\<rparr>" for ks
    by simp
  show ?case
    by (simp add: mangage_keys_def Let_def tr va Suc.IH del: flips_of_keys_jitter)
       (simp add: Suc.IH)
qed

lemma flow_key_effect:
  assumes "mode = ''train'' \<or> mode = ''demo''"
    and "flow_key self ext draws mode key heap = Inr (self', heap', images, classes)"
  shows "heap' = flips_of_key self draws key heap
       \<and> self' = self\<lparr>color_jitter :=
                         shuffled (shuffle_order (transform_random draws)) (color_jitter self)\<rparr>"
proof -
  from assms obtain prefix box_data image_array' box_data' where
    key: "ground_truth_data self key = Some box_data"
    and tr: "transform self (transform_random draws)
       (read_image ext (prefix @ key @ suffix self)) box_data heap
         = Inr (self', image_array', box_data', heap')"
    by (auto simp: flow_key_def Let_def split: option.splits sum.splits)
  from transform_heap [OF tr] transform_self [OF tr] key show ?thesis
    by (simp add: flips_of_key_def)
qed

lemma flow_step_effect:
  assumes mode: "mode = ''train'' \<or> mode = ''demo''"
    and step: "flow_step ext mode draws key st = Inr st'"
  shows "arrays st' = flips_of_key (generator st) draws key (arrays st)
       \<and> generator st' = (generator st)\<lparr>color_jitter :=
            shuffled (shuffle_order (transform_random draws)) (color_jitter (generator st))\<rparr>"
proof -
  from flow_step_arrays [OF step] obtain self' images classes where
    "flow_key (generator st) ext draws mode key (arrays st)
       = Inr (self', arrays st', images, classes)" and "generator st' = self'"
    by blast
  with flow_key_effect [OF mode] show ?thesis by blast
qed

lemma flow_keys_effect:
  assumes mode: "mode = ''train'' \<or> mode = ''demo''"
    and run: "flow_keys ext mode draws n keys st = Inr st'"
  shows "arrays st' = flips_of_keys (generator st) draws n keys (arrays st)
       \<and> (\<exists>c. generator st' = (generator st)\<lparr>color_jitter := c\<rparr>)"
  using run
proof (induction keys arbitrary: n st)
  case Nil
  then have "st' = st" by simp
  moreover have "generator st = (generator st)\<lparr>color_jitter := color_jitter (generator st)\<rparr>"
    by simp
  ultimately show ?case by (metis flips_of_keys.simps(1))
next
  case (Cons key keys)
  then obtain st1 where step: "flow_step ext mode (draws n) key st = Inr st1"
    and rest: "flow_keys ext mode draws (Suc n) keys st1 = Inr st'"
    by (auto split: sum.splits)
  from flow_step_effect [OF mode step] obtain c1 where
    a1: "arrays st1 = flips_of_key (generator st) (draws n) key (arrays st)"
    and g1: "generator st1 = (generator st)\<lparr>color_jitter := c1\<rparr>"
    by blast
  from Cons.IH [OF rest] obtain c where
    a: "arrays st' = flips_of_keys (generator st1) draws (Suc n) keys (arrays st1)"
    and g: "generator st' = (generator st1)\<lparr>color_jitter := c\<rparr>"
    by blast
  from a a1 g1 have "arrays st' = flips_of_keys (generator st) draws n (key # keys) (arrays st)"
    by simp
  moreover from g g1 have "generator st' = (generator st)\<lparr>color_jitter := c\<rparr>"
    by simp
  ultimately show ?case by blast
qed

lemma flow_effect:
  assumes mode: "mode = ''train'' \<or> mode = ''demo''"
    and run: "flow ext mode draws passes n st = Inr st'"
  shows "arrays st' = flips_of_passes (generator st) mode draws passes n (arrays st)"
  using run
proof (induction passes arbitrary: n st)
  case 0
  then show ?case by simp
next
  case (Suc passes)
  then obtain self keys st1 where
    keys: "mangage_keys (generator st) (key_order (draws n)) mode = Inr (self, keys)"
    and pass: "flow_keys ext mode (key_random (draws n)) 0 keys
                 (st\<lparr>generator := self, inputs := [], targets := []\<rparr>) = Inr st1"
    and rest: "flow ext mode draws passes (Suc n) st1 = Inr st'"
    by (auto split: sum.splits prod.splits)
  from flow_keys_effect [OF mode pass] obtain c where
    a1: "arrays st1 = flips_of_keys self (key_random (draws n)) 0 keys (arrays st)"
    and g1: "generator st1 = self\<lparr>color_jitter := c\<rparr>"
    by auto
  from Suc.IH [OF rest]
  have "arrays st' = flips_of_passes (generator st1) mode draws passes (Suc n) (arrays st1)" .
  with a1 g1 keys show ?case by simp
qed

text \<open>
  C10. A flip that fires returns the address it was given and writes the remapped columns
  into the array at this address: \<open>x_min, x_max := 1 - x_max, 1 - x_min\<close> for the
  horizontal flip, \<open>y_min, y_max := 1 - y_max, 1 - y_min\<close> for the vertical one; no
  other array changes. In the modes \<open>train\<close> and \<open>demo\<close> the address is the entry of
  \<open>ground_truth_data\<close> for the key, so after the body of the loop for a key the array
  stored for the key holds the remapped coordinates, and the dictionary is the same.
  Nothing restores an array: the heap after any number of passes of \<open>flow\<close> is the
  heap at the start with the flips of every key of every pass applied one after the other.
\<close>

theorem flips_mutate_stored_boxes:
  assumes mode: "mode = ''train'' \<or> mode = ''demo''"
  shows "(\<forall>u image_array box_corners heap. u < horizontal_flip_probability self \<longrightarrow>
            (\<exists>image_array' heap'.
               horizontal_flip self u image_array box_corners heap
                 = (image_array', box_corners, heap')
               \<and> heap' box_corners
                   = map (\<lambda>g. Ground_truth
                            (Box (1 - x_max (gt_box g)) (y_min (gt_box g))
                                 (1 - x_min (gt_box g)) (y_max (gt_box g)))
                            (gt_classes g)) (heap box_corners)
               \<and> (\<forall>a. a \<noteq> box_corners \<longrightarrow> heap' a = heap a)))
       \<and> (\<forall>u image_array box_corners heap. u < vertical_flip_probability self \<longrightarrow>
            (\<exists>image_array' heap'.
               vertical_flip self u image_array box_corners heap
                 = (image_array', box_corners, heap')
               \<and> heap' box_corners
                   = map (\<lambda>g. Ground_truth
                            (Box (x_min (gt_box g)) (1 - y_max (gt_box g))
                                 (x_max (gt_box g)) (1 - y_min (gt_box g)))
                            (gt_classes g)) (heap box_corners)
               \<and> (\<forall>a. a \<noteq> box_corners \<longrightarrow> heap' a = heap a)))
       \<and> (\<forall>key box_data d st st'.
            ground_truth_data (generator st) key = Some box_data
            \<and> flow_step ext mode d key st = Inr st' \<longrightarrow>
            arrays st' = (arrays st)(box_data :=
              map (\<lambda>g. Ground_truth
                     (Box (if horizontal_flip_probability (generator st) > 0
                              \<and> horizontal_draw (transform_random d)
                                  < horizontal_flip_probability (generator st)
                           then 1 - x_max (gt_box g) else x_min (gt_box g))
                          (if vertical_flip_probability (generator st) > 0
                              \<and> vertical_draw (transform_random d)
                                  < vertical_flip_probability (generator st)
                           then 1 - y_max (gt_box g) else y_min (gt_box g))
                          (if horizontal_flip_probability (generator st) > 0
                              \<and> horizontal_draw (transform_random d)
                                  < horizontal_flip_probability (generator st)
                           then 1 - x_min (gt_box g) else x_max (gt_box g))
                          (if vertical_flip_probability (generator st) > 0
                              \<and> vertical_draw (transform_random d)
                                  < vertical_flip_probability (generator st)
                           then 1 - y_min (gt_box g) else y_max (gt_box g)))
                     (gt_classes g)) (arrays st box_data))
            \<and> ground_truth_data (generator st') = ground_truth_data (generator st))
       \<and> (\<forall>passes n st st'.
            flow ext mode draws passes n st = Inr st' \<longrightarrow>
            arrays st' = flips_of_passes (generator st) mode draws passes n (arrays st))"
proof -
  have x: "flip_columns_0_2 g = Ground_truth
      (Box (1 - x_max (gt_box g)) (y_min (gt_box g)) (1 - x_min (gt_box g)) (y_max (gt_box g)))
      (gt_classes g)" for g
    by (cases g; cases "gt_box g") (simp add: flip_columns_0_2_def)
  have y: "flip_columns_1_3 g = Ground_truth
      (Box (x_min (gt_box g)) (1 - y_max (gt_box g)) (x_max (gt_box g)) (1 - y_min (gt_box g)))
      (gt_classes g)" for g
    by (cases g; cases "gt_box g") (simp add: flip_columns_1_3_def)
  have h: "\<forall>u image_array box_corners heap. u < horizontal_flip_probability self \<longrightarrow>
            (\<exists>image_array' heap'.
               horizontal_flip self u image_array box_corners heap
                 = (image_array', box_corners, heap')
               \<and> heap' box_corners
                   = map (\<lambda>g. Ground_truth
                            (Box (1 - x_max (gt_box g)) (y_min (gt_box g))
                                 (1 - x_min (gt_box g)) (y_max (gt_box g)))
                            (gt_classes g)) (heap box_corners)
               \<and> (\<forall>a. a \<noteq> box_corners \<longrightarrow> heap' a = heap a))"
    by (simp add: horizontal_flip_def x)
  have v: "\<forall>u image_array box_corners heap. u < vertical_flip_probability self \<longrightarrow>
            (\<exists>image_array' heap'.
               vertical_flip self u image_array box_corners heap
                 = (image_array', box_corners, heap')
               \<and> heap' box_corners
                   = map (\<lambda>g. Ground_truth
                            (Box (x_min (gt_box g)) (1 - y_max (gt_box g))
                                 (x_max (gt_box g)) (1 - y_min (gt_box g)))
                            (gt_classes g)) (heap box_corners)
               \<and> (\<forall>a. a \<noteq> box_corners \<longrightarrow> heap' a = heap a))"
    by (simp add: vertical_flip_def y)
  have s: "arrays st' = (arrays st)(box_data :=
              flipped_boxes (generator st) (transform_random d) (arrays st box_data))
            \<and> ground_truth_data (generator st') = ground_truth_data (generator st)"
    if "ground_truth_data (generator st) key = Some box_data"
      and "flow_step ext mode d key st = Inr st'" for key box_data d st st'
    using flow_step_effect [OF mode that(2)] that(1) by (simp add: flips_of_key_def)
  have f: "arrays st' = flips_of_passes (generator st) mode draws passes n (arrays st)"
    if "flow ext mode draws passes n st = Inr st'" for passes n st st'
    using mode that by (rule flow_effect)
  from h v s f show ?thesis
    unfolding flipped_boxes_explicit by blast
qed

lemma assign_boxes_single:
  assumes bg: "background_is_class self" and shape: "one_column_per_class self [g]"
    and p: "prior_boxes self = [p]"
    and v: "intersection_over_union p (gt_box g) = Some v" "0 < v"
  shows "assign_boxes self [g] = Inr [assigned_row self g 0]"
proof -
  have n: "num_priors self = Suc 0"
    using p by (simp add: num_priors_def)
  have "object_mask self (gt_box g) ! 0"
    using n by (simp add: object_mask_nth) (simp add: calculate_intersection_over_unions_def p)
  then have st: "stored_iou self ([g] ! 0) 0 = Some v"
    using v p by (simp add: stored_iou_def)
  have "0 < num_priors self" "0 < length [g]" "np_argmax (map (\<lambda>g. stored_iou self g 0) [g]) = 0"
    using n by simp_all
  from assign_boxes_row_of_winner [OF bg shape this st v(2)]
  obtain A where A: "assign_boxes self [g] = Inr A" "length A = num_priors self"
    "A ! 0 = assigned_row self ([g] ! 0) 0"
    by blast
  from A(2) n have "A = [A ! 0]"
    by (cases A) simp_all
  with A show ?thesis by simp
qed

lemma py_slice_empty: "py_slice 0 0 xs = []"
  by (simp add: py_slice_def Let_def)

theorem flips_mutate_stored_boxes_witness:
  "flow
     \<lparr>read_image = (\<lambda>path. [[(0, 0, 0), (0, 0, 0)], [(0, 0, 0), (0, 0, 0)]]),
      resize_image = (\<lambda>image_array size. image_array),
      preprocess_images = (\<lambda>images. images)\<rparr>
     ''train''
     (\<lambda>n. \<lparr>key_order = [0],
            key_random = (\<lambda>k.
              if n = 0
              then \<lparr>transform_random =
                      \<lparr>shuffle_order = [], jitter_draws = (\<lambda>n. 0), lighting_result = Inr,
                       horizontal_draw = 0, vertical_draw = 0\<rparr>,
                    sample_permutation = [], batch_permutation = []\<rparr>
              else \<lparr>transform_random =
                      \<lparr>shuffle_order = [], jitter_draws = (\<lambda>n. 0), lighting_result = Inr,
                       horizontal_draw = 3/4, vertical_draw = 3/4\<rparr>,
                    sample_permutation = [], batch_permutation = []\<rparr>)\<rparr>)
     (Suc (Suc 0)) 0
     \<lparr>generator =
        \<lparr>negative_positive_ratio = 1, ground_truth_data = [''a'' \<mapsto> 0],
         box_manager = \<lparr>prior_boxes = [Box (1/2) (1/2) 1 1], background_id = 0,
                         overlap_threshold = 1/2, num_classes = 2,
                         box_scale_factors = Scale_factors 1 1 1 1\<rparr>,
         batch_size = 1, path_prefix = Some [], train_keys = [''a''], validation_keys = [],
         image_size = (2, 2), suffix = [], color_jitter = [], saturation_var = None,
         brightness_var = None, contrast_var = None, lighting_std = 0,
         horizontal_flip_probability = 1/2, vertical_flip_probability = 1/2\<rparr>,
      arrays = (\<lambda>a. [Ground_truth (Box 0 0 (1/2) (1/2)) [0, 1]]),
      inputs = [], targets = [], yielded = []\<rparr>
   = Inr
     \<lparr>generator =
        \<lparr>negative_positive_ratio = 1, ground_truth_data = [''a'' \<mapsto> 0],
         box_manager = \<lparr>prior_boxes = [Box (1/2) (1/2) 1 1], background_id = 0,
                         overlap_threshold = 1/2, num_classes = 2,
                         box_scale_factors = Scale_factors 1 1 1 1\<rparr>,
         batch_size = 1, path_prefix = Some [], train_keys = [''a''], validation_keys = [],
         image_size = (2, 2), suffix = [], color_jitter = [], saturation_var = None,
         brightness_var = None, contrast_var = None, lighting_std = 0,
         horizontal_flip_probability = 1/2, vertical_flip_probability = 1/2\<rparr>,
      arrays = (\<lambda>a. [Ground_truth (Box 0 0 (1/2) (1/2)) [0, 1]])
                 (0 := [Ground_truth (Box (1/2) (1/2) 1 1) [0, 1]]),
      inputs = [], targets = [], yielded = []\<rparr>"
proof -
  let ?m = "\<lparr>prior_boxes = [Box (1/2) (1/2) 1 1], background_id = 0,
                         overlap_threshold = 1/2, num_classes = 2,
                         box_scale_factors = Scale_factors 1 1 1 1\<rparr>"
  let ?g = "\<lparr>negative_positive_ratio = 1, ground_truth_data = [''a'' \<mapsto> 0],
         box_manager = ?m,
         batch_size = 1, path_prefix = Some [], train_keys = [''a''], validation_keys = [],
         image_size = (2, 2), suffix = [], color_jitter = [], saturation_var = None,
         brightness_var = None, contrast_var = None, lighting_std = 0,
         horizontal_flip_probability = 1/2, vertical_flip_probability = 1/2\<rparr>"
  let ?ext = "\<lparr>read_image = (\<lambda>path. [[(0, 0, 0), (0, 0, 0)], [(0, 0, 0), (0, 0, 0)]]),
      resize_image = (\<lambda>image_array size. image_array),
      preprocess_images = (\<lambda>images. images)\<rparr>"
  let ?d0 = "\<lparr>transform_random =
                      \<lparr>shuffle_order = [], jitter_draws = (\<lambda>n. 0), lighting_result = Inr,
                       horizontal_draw = 0, vertical_draw = 0\<rparr>,
                    sample_permutation = [], batch_permutation = []\<rparr>"
  let ?d1 = "\<lparr>transform_random =
                      \<lparr>shuffle_order = [], jitter_draws = (\<lambda>n. 0), lighting_result = Inr,
                       horizontal_draw = 3/4, vertical_draw = 3/4\<rparr>,
                    sample_permutation = [], batch_permutation = []\<rparr>"
  let ?draws = "\<lambda>n::nat. \<lparr>key_order = [0::nat],
                   key_random = (\<lambda>k::nat. if n = 0 then ?d0 else ?d1)\<rparr>"
  let ?h = "\<lambda>a::addr. [Ground_truth (Box 0 0 (1/2) (1/2)) [0, 1]]"
  let ?g1 = "Ground_truth (Box (1/2) (1/2) 1 1) [0, 1]"
  let ?st0 = "\<lparr>generator = ?g, arrays = ?h, inputs = [], targets = [], yielded = []\<rparr>"
  let ?st1 = "\<lparr>generator = ?g, arrays = ?h(0 := [?g1]), inputs = [], targets = [],
               yielded = []\<rparr>"
  have iou: "intersection_over_union (Box (1/2) (1/2) 1 1) (gt_box ?g1) = Some 1"
    by (simp add: intersection_over_union_def np_divide_def)
  have "background_is_class ?m" "one_column_per_class ?m [?g1]"
    "prior_boxes ?m = [Box (1/2) (1/2) 1 1]"
    by (simp_all add: background_is_class_def one_column_per_class_def)
  from assign_boxes_single [OF this iou]
  have assign: "assign_boxes ?m [?g1]
      = Inr [[Some 0, Some 0, Some 0, Some 0, Some 0, Some 1,
              Some 1, Some 0, Some 0, Some 0, Some 0, Some 0, Some 0, Some 0]]"
    by (simp add: assigned_row_def encode_row_def np_divide_def np_divide_by_def np_log_def
        eval_nat_numeral)
  have step0: "flow_step ?ext ''train'' ?d0 ''a'' ?st0 = Inr ?st1"
    by (simp add: flow_step_def flow_key_def transform_def shuffled_def horizontal_flip_def
        vertical_flip_def flip_columns_0_2_def flip_columns_1_3_def assign denormalize_box_def
        np_multiply_def image_width_def crop_bounding_boxes_def select_samples_def
        py_prefix_def crop_bounding_box_def py_int_def py_slice_empty Let_def)
  have step1: "flow_step ?ext ''train'' ?d1 ''a'' ?st1 = Inr ?st1"
    by (simp add: flow_step_def flow_key_def transform_def shuffled_def horizontal_flip_def
        vertical_flip_def assign denormalize_box_def
        np_multiply_def image_width_def crop_bounding_boxes_def select_samples_def
        py_prefix_def crop_bounding_box_def py_int_def py_slice_empty Let_def)
  have run: "flow ?ext ''train'' ?draws (Suc (Suc 0)) 0 ?st0 = Inr ?st1"
    by (simp add: mangage_keys_def shuffled_def Let_def step0 step1)
  have "''train'' = ''train'' \<or> ''train'' = ''demo''"
    by simp
  from flips_mutate_stored_boxes [OF this, of ?g ?ext ?draws] run
  have "arrays ?st1 = flips_of_passes (generator ?st0) ''train'' ?draws (Suc (Suc 0)) 0
                        (arrays ?st0)"
    by blast
  with run show ?thesis by simp
qed

text \<open>
  C5. What the code does for an image of height 2 and width 4, the unit prior and one
  ground-truth box that is the whole image, with pixel coordinates \<open>[0, 0, 4, 2]\<close>: the
  first four columns of the row that \<open>assign_boxes\<close> returns are the encoded box
  \<open>[0, 0, 0, 0]\<close>, not coordinates; \<open>_denormalize_box\<close> multiplies these by the image
  size; the crop is taken at \<open>[0:0, 0:0]\<close> and is empty, and \<open>flow\<close> gets no sample for
  the key.
\<close>

theorem denormalize_then_crop_failing_input:
  "assign_boxes
     \<lparr>prior_boxes = [Box 0 0 1 1], background_id = 0, overlap_threshold = 1/2,
      num_classes = 2, box_scale_factors = Scale_factors 1 1 1 1\<rparr>
     [Ground_truth (Box 0 0 1 1) [0, 1]]
   = Inr [[Some 0, Some 0, Some 0, Some 0, Some 0, Some 1,
           Some 1, Some 0, Some 0, Some 0, Some 0, Some 0, Some 0, Some 0]]
   \<and> denormalize_box
       [[Some 0, Some 0, Some 0, Some 0, Some 0, Some 1,
         Some 1, Some 0, Some 0, Some 0, Some 0, Some 0, Some 0, Some 0]] (2, 4)
     = Inr [[Some 0, Some 0, Some 0, Some 0, Some 0, Some 1,
             Some 1, Some 0, Some 0, Some 0, Some 0, Some 0, Some 0, Some 0]]
   \<and> absolute_box_coordinates (Box 0 0 1 1) (2, 4) = [Some 0, Some 0, Some 4, Some 2]
   \<and> crop_bounding_box
       [[(1, 1, 1), (2, 2, 2), (3, 3, 3), (4, 4, 4)], [(5, 5, 5), (6, 6, 6), (7, 7, 7), (8, 8, 8)]]
       [Some 0, Some 0, Some 0, Some 0, Some 0, Some 1,
        Some 1, Some 0, Some 0, Some 0, Some 0, Some 0, Some 0, Some 0]
     = Inr []
   \<and> flow_key
       \<lparr>negative_positive_ratio = 1, ground_truth_data = [''a'' \<mapsto> 0],
        box_manager = \<lparr>prior_boxes = [Box 0 0 1 1], background_id = 0,
                        overlap_threshold = 1/2, num_classes = 2,
                        box_scale_factors = Scale_factors 1 1 1 1\<rparr>,
        batch_size = 1, path_prefix = Some [], train_keys = [], validation_keys = [''a''],
        image_size = (1, 1), suffix = [], color_jitter = [], saturation_var = None,
        brightness_var = None, contrast_var = None, lighting_std = 0,
        horizontal_flip_probability = 0, vertical_flip_probability = 0\<rparr>
       \<lparr>read_image = (\<lambda>path. [[(1, 1, 1), (2, 2, 2), (3, 3, 3), (4, 4, 4)],
                               [(5, 5, 5), (6, 6, 6), (7, 7, 7), (8, 8, 8)]]),
        resize_image = (\<lambda>image_array size. image_array),
        preprocess_images = (\<lambda>images. images)\<rparr>
       \<lparr>transform_random =
          \<lparr>shuffle_order = [], jitter_draws = (\<lambda>n. 0), lighting_result = Inr,
           horizontal_draw = 0, vertical_draw = 0\<rparr>,
        sample_permutation = [], batch_permutation = []\<rparr>
       ''val'' ''a'' (\<lambda>a. [Ground_truth (Box 0 0 1 1) [0, 1]])
     = Inr (\<lparr>negative_positive_ratio = 1, ground_truth_data = [''a'' \<mapsto> 0],
             box_manager = \<lparr>prior_boxes = [Box 0 0 1 1], background_id = 0,
                             overlap_threshold = 1/2, num_classes = 2,
                             box_scale_factors = Scale_factors 1 1 1 1\<rparr>,
             batch_size = 1, path_prefix = Some [], train_keys = [],
             validation_keys = [''a''], image_size = (1, 1), suffix = [],
             color_jitter = [], saturation_var = None, brightness_var = None,
             contrast_var = None, lighting_std = 0, horizontal_flip_probability = 0,
             vertical_flip_probability = 0\<rparr>,
            (\<lambda>a. [Ground_truth (Box 0 0 1 1) [0, 1]]), [], [])"
proof -
  let ?m = "\<lparr>prior_boxes = [Box 0 0 1 1], background_id = 0, overlap_threshold = 1/2,
      num_classes = 2, box_scale_factors = Scale_factors 1 1 1 1\<rparr>"
  let ?g1 = "Ground_truth (Box 0 0 1 1) [0, 1]"
  let ?row = "[Some 0, Some 0, Some 0, Some 0, Some 0, Some 1,
               Some 1, Some 0, Some 0, Some 0, Some 0, Some 0, Some 0, Some (0::real)]"
  have iou: "intersection_over_union (Box 0 0 1 1) (gt_box ?g1) = Some 1"
    by (simp add: intersection_over_union_def np_divide_def)
  have "background_is_class ?m" "one_column_per_class ?m [?g1]" "prior_boxes ?m = [Box 0 0 1 1]"
    by (simp_all add: background_is_class_def one_column_per_class_def)
  from assign_boxes_single [OF this iou]
  have assign: "assign_boxes ?m [?g1] = Inr [?row]"
    by (simp add: assigned_row_def encode_row_def np_divide_def np_divide_by_def np_log_def
        eval_nat_numeral)
  have den: "denormalize_box [?row] (2, 4) = Inr [?row]"
    by (simp add: denormalize_box_def np_multiply_def)
  have ab: "absolute_box_coordinates (Box 0 0 1 1) (2, 4) = [Some 0, Some 0, Some 4, Some 2]"
    by (simp add: absolute_box_coordinates_def)
  have crop: "crop_bounding_box
       [[(1, 1, 1), (2, 2, 2), (3, 3, 3), (4, 4, 4)], [(5, 5, 5), (6, 6, 6), (7, 7, 7), (8, 8, 8)]]
       ?row = Inr []"
    by (simp add: crop_bounding_box_def py_int_def py_slice_empty)
  show ?thesis
    apply (intro conjI)
        apply (rule assign)
       apply (rule den)
      apply (rule ab)
     apply (rule crop)
    apply (simp add: flow_key_def assign denormalize_box_def np_multiply_def image_width_def
        crop_bounding_boxes_def select_samples_def py_prefix_def crop_bounding_box_def
        py_int_def py_slice_empty Let_def)
    done
qed

end
